theory Spec2Isabelle
  imports Complex_Main "HOL-Library.Word"
begin

section \<open>Clipboard Drop: the clip store, the preview renderer and copy-back\<close>

text \<open>
  A shallow embedding of \<^verbatim>\<open>clipboard_drop.py\<close>. The files the program reads and
  writes (the settings file, the clips directory with its index and its image blobs) and
  the system pasteboard are explicit state; every exception the source can raise on that
  state is a value of \<open>error\<close>. The clock (\<^verbatim>\<open>time.time()\<close>) is a parameter \<open>now\<close>;
  Python floats are idealised as reals.
\<close>

subsection \<open>Python values\<close>

type_synonym byte = "8 word"

text \<open>The \<^verbatim>\<open>data\<close> argument of a capture: a \<^verbatim>\<open>str\<close> or a \<^verbatim>\<open>bytes\<close> object.\<close>

datatype clip_data = Str string | Bytes "byte list"

datatype error = JSONDecodeError | IndexError | FileNotFoundError | TypeError

text \<open>\<^verbatim>\<open>int(x)\<close> on a float truncates towards zero.\<close>

definition py_int :: "real \<Rightarrow> int" where
  "py_int x = (if 0 \<le> x then \<lfloor>x\<rfloor> else \<lceil>x\<rceil>)"

text \<open>\<^verbatim>\<open>str(n)\<close> on an integer: its decimal digits, with a sign when negative.\<close>

definition digit_char :: "nat \<Rightarrow> char" where
  "digit_char d = ''0123456789'' ! d"

fun decimal :: "nat \<Rightarrow> string" where
  "decimal n = (if n div 10 = 0 then [] else decimal (n div 10)) @ [digit_char (n mod 10)]"

declare decimal.simps [simp del]

definition str_of_int :: "int \<Rightarrow> string" where
  "str_of_int i = (if i < 0 then CHR ''-'' # decimal (nat (- i)) else decimal (nat i))"

subsection \<open>Relative-time formatting\<close>

text \<open>
  \<^verbatim>\<open>relative_time(timestamp)\<close>, with the clock reading as the first argument.
\<close>

definition relative_time :: "real \<Rightarrow> real \<Rightarrow> string" where
  "relative_time now timestamp =
     (let diff = now - timestamp in
      if diff < 60 then ''just now''
      else if diff < 3600 then
        (let mins = py_int (diff / 60) in str_of_int mins @ '' min ago'')
      else if diff < 86400 then
        (let hrs = py_int (diff / 3600) in
         str_of_int hrs @ '' hr'' @ (if hrs > 1 then ''s'' else '''') @ '' ago'')
      else if diff < 172800 then ''yesterday''
      else
        (let days = py_int (diff / 86400) in str_of_int days @ '' days ago''))"

subsection \<open>Clip records, settings and the files on disk\<close>

text \<open>
  A clip is the dictionary \<^verbatim>\<open>save_clip\<close> builds and the index file holds: tagged by its
  \<^verbatim>\<open>"type"\<close>, with \<^verbatim>\<open>"content"\<close> for text and \<^verbatim>\<open>"filename"\<close> for an image.
\<close>

datatype clip =
    is_text: TextClip (clip_id: int) (content: string) (timestamp: int) (preview: string)
  | is_image: ImageClip (clip_id: int) (filename: string) (timestamp: int) (preview: string)

text \<open>
  The settings object: each key may be absent, and the source reads it with
  \<^verbatim>\<open>.get(key, default)\<close>.
\<close>

record window_cfg =
  width :: "int option"
  height :: "int option"
  opacity :: "real option"

record settings =
  max_clips :: "int option"
  window :: "window_cfg option"

text \<open>
  A JSON file on disk: not there, there but not parseable (\<^verbatim>\<open>json.load\<close> raises), or there
  with a value of the shape the program writes.
\<close>

datatype 'a json_file = Missing | Malformed | Json 'a

text \<open>
  \<^verbatim>\<open>CLIPS_DIR\<close>, when it exists, holds the index \<^verbatim>\<open>clips.json\<close> and the image blobs by
  file name. \<^verbatim>\<open>SETTINGS_PATH\<close> lies beside it.
\<close>

record directory =
  clips_json :: "clip list json_file"
  blobs :: "string \<rightharpoonup> byte list"

record disk =
  settings_path :: "settings json_file"
  clips_dir :: "directory option"

definition load_settings :: "disk \<Rightarrow> error + settings" where
  "load_settings s =
     (case settings_path s of
        Json v \<Rightarrow> Inr v
      | Malformed \<Rightarrow> Inl JSONDecodeError
      | Missing \<Rightarrow>
          Inr \<lparr>max_clips = Some 50,
               window = Some \<lparr>width = Some 700, height = Some 600, opacity = Some (95 / 100)\<rparr>\<rparr>)"

definition load_clips :: "disk \<Rightarrow> error + clip list" where
  "load_clips s =
     (case clips_dir s of
        None \<Rightarrow> Inr []
      | Some d \<Rightarrow>
          (case clips_json d of
             Json clips \<Rightarrow> Inr clips
           | Malformed \<Rightarrow> Inl JSONDecodeError
           | Missing \<Rightarrow> Inr []))"

text \<open>\<^verbatim>\<open>save_clips\<close>: create the directory if need be, then write the index.\<close>

definition save_clips :: "clip list \<Rightarrow> disk \<Rightarrow> disk" where
  "save_clips clips s =
     (let d = (case clips_dir s of
                 None \<Rightarrow> \<lparr>clips_json = Missing, blobs = Map.empty\<rparr>
               | Some d \<Rightarrow> d)
      in s\<lparr>clips_dir := Some (d\<lparr>clips_json := Json clips\<rparr>)\<rparr>)"

text \<open>The file operations on \<^verbatim>\<open>CLIPS_DIR / name\<close>.\<close>

definition read_bytes :: "disk \<Rightarrow> string \<Rightarrow> byte list option" where
  "read_bytes s name = (case clips_dir s of None \<Rightarrow> None | Some d \<Rightarrow> blobs d name)"

definition path_exists :: "disk \<Rightarrow> string \<Rightarrow> bool" where
  "path_exists s name = (read_bytes s name \<noteq> None)"

definition unlink :: "string \<Rightarrow> disk \<Rightarrow> disk" where
  "unlink name s =
     (case clips_dir s of
        None \<Rightarrow> s
      | Some d \<Rightarrow> s\<lparr>clips_dir := Some (d\<lparr>blobs := (blobs d)(name := None)\<rparr>)\<rparr>)"

text \<open>\<^verbatim>\<open>write_bytes\<close> does not create the directory: without it the open fails.\<close>

definition write_bytes :: "string \<Rightarrow> byte list \<Rightarrow> disk \<Rightarrow> error + disk" where
  "write_bytes name data s =
     (case clips_dir s of
        None \<Rightarrow> Inl FileNotFoundError
      | Some d \<Rightarrow> Inr (s\<lparr>clips_dir := Some (d\<lparr>blobs := (blobs d)(name \<mapsto> data)\<rparr>)\<rparr>))"

subsection \<open>Capture\<close>

text \<open>
  The body of both deletion loops (pruning and clearing): an image clip's blob is unlinked
  if it is there.
\<close>

definition remove_blob :: "clip \<Rightarrow> disk \<Rightarrow> disk" where
  "remove_blob removed s =
     (if is_image removed then
        (if path_exists s (filename removed) then unlink (filename removed) s else s)
      else s)"

text \<open>
  The auto-prune loop: while the list is longer than \<^verbatim>\<open>max_clips\<close>, pop the last clip.
  \<^verbatim>\<open>pop\<close> on an empty list raises, which a negative \<^verbatim>\<open>max_clips\<close> reaches.
\<close>

function prune :: "int \<Rightarrow> clip list \<Rightarrow> disk \<Rightarrow> (error + clip list) \<times> disk" where
  "prune max_clips' clips s =
     (if int (length clips) > max_clips' then
        (if clips = [] then (Inl IndexError, s)
         else prune max_clips' (butlast clips) (remove_blob (last clips) s))
      else (Inr clips, s))"
  by pat_completeness auto
termination
  by (relation "measure (\<lambda>(m, clips, s). length clips)") auto

declare prune.simps [simp del]

text \<open>The tail of \<^verbatim>\<open>save_clip\<close>: prune, persist, return \<^verbatim>\<open>True\<close>.\<close>

definition prune_and_save :: "int \<Rightarrow> clip list \<Rightarrow> disk \<Rightarrow> (error + bool) \<times> disk" where
  "prune_and_save max_clips' clips s =
     (case prune max_clips' clips s of
        (Inl e, s') \<Rightarrow> (Inl e, s')
      | (Inr clips', s') \<Rightarrow> (Inr True, save_clips clips' s'))"

text \<open>\<^verbatim>\<open>data[:80].replace("\n", " ")\<close>\<close>

definition text_preview :: "string \<Rightarrow> string" where
  "text_preview data = map (\<lambda>c. if c = CHR 0x0A then CHR '' '' else c) (take 80 data)"

text \<open>\<^verbatim>\<open>f"img_{ts}.png"\<close>\<close>

definition img_filename :: "int \<Rightarrow> string" where
  "img_filename ts = ''img_'' @ str_of_int ts @ ''.png''"

text \<open>
  The caption of an image clip. Decoding the image is the platform's work
  (\<^verbatim>\<open>NSBitmapImageRep\<close>): \<open>pixels\<close> gives the width and height of a buffer it can decode.
\<close>

definition image_preview :: "(byte list \<Rightarrow> (int \<times> int) option) \<Rightarrow> byte list \<Rightarrow> string" where
  "image_preview pixels data =
     (case pixels data of
        Some (w, h) \<Rightarrow> ''Screenshot ('' @ str_of_int w @ ''x'' @ str_of_int h @ '')''
      | None \<Rightarrow> ''Image'')"

text \<open>\<^verbatim>\<open>len(data)\<close>\<close>

fun len :: "clip_data \<Rightarrow> nat" where
  "len (Str t) = length t"
| "len (Bytes b) = length b"

text \<open>\<^verbatim>\<open>settings.get("max_clips", 50)\<close>\<close>

definition get_max_clips :: "settings \<Rightarrow> int" where
  "get_max_clips settings = (case max_clips settings of Some m \<Rightarrow> m | None \<Rightarrow> 50)"

text \<open>
  \<^verbatim>\<open>save_clip(clip_type, data)\<close>. The result is what the call returns or raises, with the
  disk as the call leaves it. A \<^verbatim>\<open>bytes\<close> object under \<^verbatim>\<open>"text"\<close> fails in \<^verbatim>\<open>replace\<close>, a
  \<^verbatim>\<open>str\<close> under \<^verbatim>\<open>"image"\<close> fails in \<^verbatim>\<open>write_bytes\<close>, both before anything is written.
\<close>

definition save_clip ::
  "(byte list \<Rightarrow> (int \<times> int) option) \<Rightarrow> real \<Rightarrow> string \<Rightarrow> clip_data \<Rightarrow> disk \<Rightarrow> (error + bool) \<times> disk"
where
  "save_clip pixels now clip_type data s =
     (case load_clips s of
        Inl e \<Rightarrow> (Inl e, s)
      | Inr clips \<Rightarrow>
     (case load_settings s of
        Inl e \<Rightarrow> (Inl e, s)
      | Inr settings \<Rightarrow>
     (let max_clips = get_max_clips settings;
          ts = py_int now
      in
      if clip_type = ''text'' then
        (if clips \<noteq> [] \<and> is_text (hd clips) \<and> Str (content (hd clips)) = data then (Inr False, s)
         else
           (case data of
              Bytes b \<Rightarrow> (Inl TypeError, s)
            | Str t \<Rightarrow> prune_and_save max_clips (TextClip ts t ts (text_preview t) # clips) s))
      else if clip_type = ''image'' then
        (if clips \<noteq> [] \<and> is_image (hd clips) \<and>
            path_exists s (filename (hd clips)) \<and>
            map_option length (read_bytes s (filename (hd clips))) = Some (len data)
         then (Inr False, s)
         else
           (case data of
              Str t \<Rightarrow> (Inl TypeError, s)
            | Bytes b \<Rightarrow>
                (case write_bytes (img_filename ts) b s of
                   Inl e \<Rightarrow> (Inl e, s)
                 | Inr s1 \<Rightarrow>
                     prune_and_save max_clips
                       (ImageClip ts (img_filename ts) ts (image_preview pixels b) # clips) s1)))
      else prune_and_save max_clips clips s)))"

text \<open>\<^verbatim>\<open>clear_all_clips()\<close>\<close>

definition clear_all_clips :: "disk \<Rightarrow> (error + unit) \<times> disk" where
  "clear_all_clips s =
     (case load_clips s of
        Inl e \<Rightarrow> (Inl e, s)
      | Inr clips \<Rightarrow> (Inr (), save_clips [] (fold remove_blob clips s)))"

subsection \<open>Preview rendering\<close>

definition PREVIEW_CSS :: string where
  \<open>PREVIEW_CSS =
     ''\<newline>'' @
     ''body {\<newline>'' @
     ''    font-family: -apple-system, BlinkMacSystemFont, "Segoe UI", Helvetica, Arial, sans-serif;\<newline>'' @
     ''    font-size: 14px;\<newline>'' @
     ''    line-height: 1.6;\<newline>'' @
     ''    color: #e6edf3;\<newline>'' @
     ''    background: #0d1117;\<newline>'' @
     ''    padding: 24px 32px;\<newline>'' @
     ''    margin: 0;\<newline>'' @
     ''    -webkit-font-smoothing: antialiased;\<newline>'' @
     ''}\<newline>'' @
     ''pre {\<newline>'' @
     ''    background: #161b22;\<newline>'' @
     ''    padding: 16px;\<newline>'' @
     ''    border-radius: 6px;\<newline>'' @
     ''    overflow-x: auto;\<newline>'' @
     ''    line-height: 1.45;\<newline>'' @
     ''    border: 1px solid #30363d;\<newline>'' @
     ''    font-family: ui-monospace, SFMono-Regular, "SF Mono", Menlo, monospace;\<newline>'' @
     ''    font-size: 13px;\<newline>'' @
     ''    color: #e6edf3;\<newline>'' @
     ''    white-space: pre-wrap;\<newline>'' @
     ''    word-wrap: break-word;\<newline>'' @
     ''}\<newline>'' @
     ''.image-container {\<newline>'' @
     ''    display: flex;\<newline>'' @
     ''    justify-content: center;\<newline>'' @
     ''    align-items: center;\<newline>'' @
     ''    min-height: 200px;\<newline>'' @
     ''    padding: 16px;\<newline>'' @
     ''}\<newline>'' @
     ''.image-container img {\<newline>'' @
     ''    max-width: 100%;\<newline>'' @
     ''    max-height: 80vh;\<newline>'' @
     ''    border-radius: 6px;\<newline>'' @
     ''    border: 1px solid #30363d;\<newline>'' @
     ''}\<newline>'' @
     ''.clip-meta {\<newline>'' @
     ''    color: #8b949e;\<newline>'' @
     ''    font-size: 12px;\<newline>'' @
     ''    margin-bottom: 12px;\<newline>'' @
     ''    padding-bottom: 8px;\<newline>'' @
     ''    border-bottom: 1px solid #30363d;\<newline>'' @
     ''    display: flex;\<newline>'' @
     ''    justify-content: space-between;\<newline>'' @
     ''    align-items: center;\<newline>'' @
     ''}\<newline>'' @
     ''.copy-btn {\<newline>'' @
     ''    background: #21262d;\<newline>'' @
     ''    color: #8b949e;\<newline>'' @
     ''    border: 1px solid #30363d;\<newline>'' @
     ''    border-radius: 6px;\<newline>'' @
     ''    padding: 4px 12px;\<newline>'' @
     ''    font-size: 12px;\<newline>'' @
     ''    cursor: pointer;\<newline>'' @
     ''    font-family: -apple-system, BlinkMacSystemFont, sans-serif;\<newline>'' @
     ''    transition: all 0.15s ease;\<newline>'' @
     ''}\<newline>'' @
     ''.copy-btn:hover { background: #30363d; color: #e6edf3; }\<newline>'' @
     ''.copy-btn.copied { background: #238636; border-color: #238636; color: #fff; }\<newline>''\<close>

text \<open>\<^verbatim>\<open>html.escape\<close> with its default \<^verbatim>\<open>quote=True\<close>.\<close>

definition escape_char :: "char \<Rightarrow> string" where
  \<open>escape_char c =
     (if c = CHR ''&'' then ''&amp;''
      else if c = CHR ''<'' then ''&lt;''
      else if c = CHR ''>'' then ''&gt;''
      else if c = CHR 0x22 then ''&quot;''
      else if c = CHR 0x27 then ''&#x27;''
      else [c])\<close>

definition html_escape :: "string \<Rightarrow> string" where
  "html_escape t = concat (map escape_char t)"

text \<open>
  The two renderers. Formatting a time stamp in local time (\<open>strftime\<close>) and the base-64
  encoder (\<open>b64encode\<close>) are the library's, taken as parameters.
\<close>

definition render_text_preview :: "(int \<Rightarrow> string) \<Rightarrow> string \<Rightarrow> int \<Rightarrow> string" where
  \<open>render_text_preview strftime t ts =
     (let escaped = html_escape t;
          time_str = strftime ts
      in
        ''<!DOCTYPE html>\<newline>'' @
        ''<html><head>\<newline>'' @
        ''<meta charset="utf-8">\<newline>'' @
        ''<style>'' @
        PREVIEW_CSS @
        ''</style>\<newline>'' @
        ''</head><body>\<newline>'' @
        ''<div class="clip-meta">\<newline>'' @
        ''    <span>Text clip &middot; '' @
        time_str @
        ''</span>\<newline>'' @
        ''    <button class="copy-btn" onclick="copyClip(this)">Copy</button>\<newline>'' @
        ''</div>\<newline>'' @
        ''<pre>'' @
        escaped @
        ''</pre>\<newline>'' @
        ''<script>\<newline>'' @
        ''function copyClip(btn) {\<newline>'' @
        ''    window.webkit.messageHandlers.copyClip.postMessage('copy');\<newline>'' @
        ''    btn.textContent = 'Copied!';\<newline>'' @
        ''    btn.classList.add('copied');\<newline>'' @
        ''    setTimeout(() => { btn.textContent = 'Copy'; btn.classList.remove('copied'); }, 1500);\<newline>'' @
        ''}\<newline>'' @
        ''</script>\<newline>'' @
        ''</body></html>'')\<close>

definition render_image_preview ::
  "(int \<Rightarrow> string) \<Rightarrow> (byte list \<Rightarrow> string) \<Rightarrow> disk \<Rightarrow> string \<Rightarrow> int \<Rightarrow> string"
where
  \<open>render_image_preview strftime b64encode s name ts =
     (case read_bytes s name of
        None \<Rightarrow> ''<html><body><p>Image not found: '' @ name @ ''</p></body></html>''
      | Some img_data \<Rightarrow>
     (let b64 = b64encode img_data;
          time_str = strftime ts
      in
        ''<!DOCTYPE html>\<newline>'' @
        ''<html><head>\<newline>'' @
        ''<meta charset="utf-8">\<newline>'' @
        ''<style>'' @
        PREVIEW_CSS @
        ''</style>\<newline>'' @
        ''</head><body>\<newline>'' @
        ''<div class="clip-meta">\<newline>'' @
        ''    <span>Image clip &middot; '' @
        time_str @
        ''</span>\<newline>'' @
        ''    <button class="copy-btn" onclick="copyClip(this)">Copy</button>\<newline>'' @
        ''</div>\<newline>'' @
        ''<div class="image-container">\<newline>'' @
        ''    <img src="data:image/png;base64,'' @
        b64 @
        ''">\<newline>'' @
        ''</div>\<newline>'' @
        ''<script>\<newline>'' @
        ''function copyClip(btn) {\<newline>'' @
        ''    window.webkit.messageHandlers.copyClip.postMessage('copy');\<newline>'' @
        ''    btn.textContent = 'Copied!';\<newline>'' @
        ''    btn.classList.add('copied');\<newline>'' @
        ''    setTimeout(() => { btn.textContent = 'Copy'; btn.classList.remove('copied'); }, 1500);\<newline>'' @
        ''}\<newline>'' @
        ''</script>\<newline>'' @
        ''</body></html>''))\<close>

subsection \<open>The floating window and copy-back\<close>

text \<open>
  Of the native panel the model keeps what the program sets on it: the size and opacity
  read from the settings, the loaded document, the title, and whether it is on screen.
\<close>

record panel =
  frame_width :: int
  frame_height :: int
  alpha :: real
  html :: string
  title :: string
  visible :: bool

record floating_window =
  the_panel :: "panel option"
  current_clip_id :: "int option"
  current_clip :: "clip option"

text \<open>\<^verbatim>\<open>FloatingWindow._ensure_panel\<close>: the first call builds the panel from the settings.\<close>

definition ensure_panel :: "disk \<Rightarrow> floating_window \<Rightarrow> error + floating_window" where
  "ensure_panel s w =
     (case the_panel w of
        Some p \<Rightarrow> Inr w
      | None \<Rightarrow>
          (case load_settings s of
             Inl e \<Rightarrow> Inl e
           | Inr settings \<Rightarrow>
               (let win_cfg = (case window settings of
                                 Some c \<Rightarrow> c
                               | None \<Rightarrow> \<lparr>width = None, height = None, opacity = None\<rparr>);
                    w' = (case width win_cfg of Some v \<Rightarrow> v | None \<Rightarrow> 700);
                    h' = (case height win_cfg of Some v \<Rightarrow> v | None \<Rightarrow> 600);
                    o' = (case opacity win_cfg of Some v \<Rightarrow> v | None \<Rightarrow> 95 / 100)
                in Inr (w\<lparr>the_panel :=
                            Some \<lparr>frame_width = w', frame_height = h', alpha = o',
                                  html = [], title = [], visible = False\<rparr>\<rparr>))))"

text \<open>\<^verbatim>\<open>FloatingWindow.show_clip\<close>\<close>

definition show_clip ::
  "(int \<Rightarrow> string) \<Rightarrow> (byte list \<Rightarrow> string) \<Rightarrow> disk \<Rightarrow> clip \<Rightarrow> floating_window
     \<Rightarrow> error + floating_window"
where
  "show_clip strftime b64encode s clip w =
     (case ensure_panel s w of
        Inl e \<Rightarrow> Inl e
      | Inr w1 \<Rightarrow>
          (let w2 = w1\<lparr>current_clip_id := Some (clip_id clip), current_clip := Some clip\<rparr>;
               (doc, ttl) =
                 (if is_text clip then
                    (render_text_preview strftime (content clip) (timestamp clip),
                     take 50 (preview clip))
                  else
                    (render_image_preview strftime b64encode s (filename clip) (timestamp clip),
                     preview clip))
           in Inr (w2\<lparr>the_panel :=
                        map_option (\<lambda>p. p\<lparr>html := doc, title := ttl, visible := True\<rparr>)
                          (the_panel w2)\<rparr>)))"

text \<open>\<^verbatim>\<open>FloatingWindow.hide\<close> and \<^verbatim>\<open>FloatingWindow.toggle_clip\<close>\<close>

definition hide :: "floating_window \<Rightarrow> floating_window" where
  "hide w = w\<lparr>the_panel := map_option (\<lambda>p. p\<lparr>visible := False\<rparr>) (the_panel w)\<rparr>"

definition toggle_clip ::
  "(int \<Rightarrow> string) \<Rightarrow> (byte list \<Rightarrow> string) \<Rightarrow> disk \<Rightarrow> clip \<Rightarrow> floating_window
     \<Rightarrow> error + floating_window"
where
  "toggle_clip strftime b64encode s clip w =
     (if (case the_panel w of Some p \<Rightarrow> visible p | None \<Rightarrow> False) \<and>
         current_clip_id w = Some (clip_id clip)
      then Inr (hide w)
      else show_clip strftime b64encode s clip w)"

text \<open>
  The system pasteboard: what it holds under each type. \<^verbatim>\<open>clearContents\<close> empties it.
\<close>

datatype pasteboard_type = NSPasteboardTypeString | NSPasteboardTypePNG | NSPasteboardTypeTIFF

type_synonym pasteboard = "pasteboard_type \<rightharpoonup> clip_data"

text \<open>
  \<^verbatim>\<open>_CopyMessageHandler.userContentController_didReceiveScriptMessage_\<close>: the handler's
  window may not be set, and the window may show no clip.
\<close>

definition copy_message_handler :: "floating_window option \<Rightarrow> disk \<Rightarrow> pasteboard \<Rightarrow> pasteboard" where
  "copy_message_handler floating_window s pb =
     (case floating_window of
        None \<Rightarrow> pb
      | Some w \<Rightarrow>
          (case current_clip w of
             None \<Rightarrow> pb
           | Some clip \<Rightarrow>
               (let pb1 = (Map.empty :: pasteboard) in
                if is_text clip then pb1(NSPasteboardTypeString \<mapsto> Str (content clip))
                else
                  (case read_bytes s (filename clip) of
                     Some img_data \<Rightarrow> pb1(NSPasteboardTypePNG \<mapsto> Bytes img_data)
                   | None \<Rightarrow> pb1))))"

subsection \<open>A run of captures\<close>

text \<open>
  Successive calls of \<^verbatim>\<open>save_clip\<close>, each with its clock reading, kind and data, on the
  disk the previous call left; the results are collected in order.
\<close>

fun captures ::
  "(byte list \<Rightarrow> (int \<times> int) option) \<Rightarrow> (real \<times> string \<times> clip_data) list \<Rightarrow> disk
     \<Rightarrow> (error + bool) list \<times> disk"
where
  "captures pixels [] s = ([], s)"
| "captures pixels ((now, clip_type, data) # rest) s =
     (case save_clip pixels now clip_type data s of
        (r, s1) \<Rightarrow> (case captures pixels rest s1 of (rs, s2) \<Rightarrow> (r # rs, s2)))"

text \<open>
  The record a capture inserts when it is not a duplicate: a text clip for a string, an image
  clip for a byte buffer, as the two branches of \<^verbatim>\<open>save_clip\<close> build it.
\<close>

fun new_clip :: "(byte list \<Rightarrow> (int \<times> int) option) \<Rightarrow> real \<Rightarrow> clip_data \<Rightarrow> clip" where
  "new_clip pixels now (Str t) = TextClip (py_int now) t (py_int now) (text_preview t)"
| "new_clip pixels now (Bytes b) =
     ImageClip (py_int now) (img_filename (py_int now)) (py_int now) (image_preview pixels b)"

definition new_clips ::
  "(byte list \<Rightarrow> (int \<times> int) option) \<Rightarrow> (real \<times> string \<times> clip_data) list \<Rightarrow> clip list"
where
  "new_clips pixels caps = map (\<lambda>(now, clip_type, data). new_clip pixels now data) caps"

section \<open>Properties\<close>

subsection \<open>What the file operations leave unchanged\<close>

lemma load_clips_remove_blob [simp]: "load_clips (remove_blob c s) = load_clips s"
  by (simp add: remove_blob_def unlink_def load_clips_def split: option.splits)

lemma load_settings_remove_blob [simp]: "load_settings (remove_blob c s) = load_settings s"
  by (simp add: remove_blob_def unlink_def load_settings_def split: option.splits)

lemma clips_dir_remove_blob [simp]: "(clips_dir (remove_blob c s) = None) = (clips_dir s = None)"
  by (simp add: remove_blob_def unlink_def split: option.splits)

lemma read_bytes_remove_blob:
  "read_bytes (remove_blob c s) n = (if is_image c \<and> filename c = n then None else read_bytes s n)"
  by (auto simp add: remove_blob_def unlink_def read_bytes_def path_exists_def split: option.splits)

lemma load_clips_fold_remove [simp]: "load_clips (fold remove_blob cs s) = load_clips s"
  by (induction cs arbitrary: s) simp_all

lemma load_settings_fold_remove [simp]: "load_settings (fold remove_blob cs s) = load_settings s"
  by (induction cs arbitrary: s) simp_all

lemma clips_dir_fold_remove [simp]: "(clips_dir (fold remove_blob cs s) = None) = (clips_dir s = None)"
  by (induction cs arbitrary: s) simp_all

lemma read_bytes_fold_remove:
  "read_bytes (fold remove_blob cs s) n =
     (if \<exists>c\<in>set cs. is_image c \<and> filename c = n then None else read_bytes s n)"
  by (induction cs arbitrary: s) (auto simp add: read_bytes_remove_blob)

lemma load_clips_save_clips [simp]: "load_clips (save_clips cs s) = Inr cs"
  by (simp add: save_clips_def load_clips_def Let_def)

lemma load_settings_save_clips [simp]: "load_settings (save_clips cs s) = load_settings s"
  by (simp add: save_clips_def load_settings_def Let_def)

lemma read_bytes_save_clips [simp]: "read_bytes (save_clips cs s) n = read_bytes s n"
  by (simp add: save_clips_def read_bytes_def Let_def split: option.splits)

lemma clips_dir_save_clips [simp]: "clips_dir (save_clips cs s) \<noteq> None"
  by (simp add: save_clips_def Let_def)

lemma prune_nonneg:
  "0 \<le> m \<Longrightarrow> prune m clips s = (Inr (take (nat m) clips), fold remove_blob (rev (drop (nat m) clips)) s)"
proof (induction m clips s rule: prune.induct)
  case (1 m clips s)
  show ?case
  proof (cases "int (length clips) > m")
    case False
    then show ?thesis by (simp add: prune.simps)
  next
    case True
    with "1.prems" have ne: "clips \<noteq> []" and lt: "nat m < length clips" by auto
    have "drop (nat m) (butlast clips @ [last clips]) = drop (nat m) (butlast clips) @ [last clips]"
      using lt by simp
    then have d: "drop (nat m) clips = drop (nat m) (butlast clips) @ [last clips]"
      using ne by simp
    have t: "take (nat m) (butlast clips) = take (nat m) clips"
      using lt by (simp add: take_butlast)
    from "1.IH" [OF True ne "1.prems"] True ne show ?thesis
      by (subst prune.simps) (simp add: d t)
  qed
qed

lemma prune_neg:
  "m < 0 \<Longrightarrow> prune m clips s = (Inl IndexError, fold remove_blob (rev clips) s)"
proof (induction m clips s rule: prune.induct)
  case (1 m clips s)
  show ?case
  proof (cases "clips = []")
    case True
    with "1.prems" show ?thesis by (simp add: prune.simps)
  next
    case False
    have gt: "int (length clips) > m" using "1.prems" by simp
    have "rev (butlast clips @ [last clips]) = last clips # rev (butlast clips)"
      by simp
    then have r: "rev clips = last clips # rev (butlast clips)"
      using False by simp
    from "1.IH" [OF gt False "1.prems"] gt False show ?thesis
      by (subst prune.simps) (simp add: r)
  qed
qed

subsection \<open>The steps of a capture\<close>

lemma prune_and_save_nonneg:
  "0 \<le> m \<Longrightarrow>
   prune_and_save m clips s =
     (Inr True, save_clips (take (nat m) clips) (fold remove_blob (rev (drop (nat m) clips)) s))"
  by (simp add: prune_and_save_def prune_nonneg)

lemma prune_and_save_not_False: "fst (prune_and_save m clips s) \<noteq> Inr False"
  by (cases "0 \<le> m") (simp_all add: prune_and_save_def prune_nonneg prune_neg)

lemma prune_and_save_neg:
  "m < 0 \<Longrightarrow> prune_and_save m clips s = (Inl IndexError, fold remove_blob (rev clips) s)"
  by (simp add: prune_and_save_def prune_neg)

lemma load_clips_write_bytes:
  "write_bytes name b s = Inr s1 \<Longrightarrow> load_clips s1 = load_clips s"
  by (auto simp add: write_bytes_def load_clips_def split: option.splits)

lemma load_settings_write_bytes:
  "write_bytes name b s = Inr s1 \<Longrightarrow> load_settings s1 = load_settings s"
  by (auto simp add: write_bytes_def load_settings_def split: option.splits)

lemma read_bytes_write_bytes:
  "write_bytes name b s = Inr s1 \<Longrightarrow> read_bytes s1 n = (if n = name then Some b else read_bytes s n)"
  by (auto simp add: write_bytes_def read_bytes_def split: option.splits)

lemma write_bytes_ok: "clips_dir s \<noteq> None \<Longrightarrow> \<exists>s1. write_bytes name b s = Inr s1"
  by (auto simp add: write_bytes_def split: option.splits)

lemma load_clips_nonempty_dir: "load_clips s = Inr (c # cs) \<Longrightarrow> clips_dir s \<noteq> None"
  by (auto simp add: load_clips_def split: option.splits)

text \<open>The three ways a call of \<^verbatim>\<open>save_clip\<close> goes on once both files have loaded.\<close>

lemma save_clip_text:
  assumes "load_clips s = Inr clips" and "load_settings s = Inr st"
  shows "save_clip pixels now ''text'' (Str t) s =
     (if clips \<noteq> [] \<and> is_text (hd clips) \<and> content (hd clips) = t then (Inr False, s)
      else prune_and_save (get_max_clips st)
             (TextClip (py_int now) t (py_int now) (text_preview t) # clips) s)"
  using assms by (simp add: save_clip_def Let_def)

lemma save_clip_image:
  assumes "load_clips s = Inr clips" and "load_settings s = Inr st"
  shows "save_clip pixels now ''image'' (Bytes b) s =
     (if clips \<noteq> [] \<and> is_image (hd clips) \<and>
         (\<exists>blob. read_bytes s (filename (hd clips)) = Some blob \<and> length blob = length b)
      then (Inr False, s)
      else (case write_bytes (img_filename (py_int now)) b s of
              Inl e \<Rightarrow> (Inl e, s)
            | Inr s1 \<Rightarrow>
                prune_and_save (get_max_clips st)
                  (ImageClip (py_int now) (img_filename (py_int now)) (py_int now)
                     (image_preview pixels b) # clips) s1))"
  using assms by (auto simp add: save_clip_def Let_def path_exists_def)

lemma save_clip_other:
  assumes "load_clips s = Inr clips" and "load_settings s = Inr st"
    and "clip_type \<noteq> ''text''" and "clip_type \<noteq> ''image''"
  shows "save_clip pixels now clip_type data s = prune_and_save (get_max_clips st) clips s"
  using assms by (simp add: save_clip_def Let_def)

subsection \<open>Relative-time buckets\<close>

text \<open>
  C6. With \<open>diff = now - timestamp\<close>: below 60 the label is "just now"; from 60 up to 3600
  it is "N min ago" with N the whole minutes; from 3600 up to 86400 it is "N hr ago", with
  "hrs" exactly when N exceeds 1; from 86400 up to 172800 it is "yesterday"; from 172800 on it
  is "N days ago". Each bucket includes its lower bound and excludes its upper bound.
\<close>

theorem relative_time_buckets:
  "(let diff = now - ts in
     (diff < 60 \<longrightarrow> relative_time now ts = ''just now'') \<and>
     (60 \<le> diff \<and> diff < 3600 \<longrightarrow>
        relative_time now ts = str_of_int \<lfloor>diff / 60\<rfloor> @ '' min ago'') \<and>
     (3600 \<le> diff \<and> diff < 86400 \<longrightarrow>
        relative_time now ts =
          str_of_int \<lfloor>diff / 3600\<rfloor> @
            (if \<lfloor>diff / 3600\<rfloor> > 1 then '' hrs ago'' else '' hr ago'')) \<and>
     (86400 \<le> diff \<and> diff < 172800 \<longrightarrow> relative_time now ts = ''yesterday'') \<and>
     (172800 \<le> diff \<longrightarrow>
        relative_time now ts = str_of_int \<lfloor>diff / 86400\<rfloor> @ '' days ago''))"
  by (simp add: relative_time_def py_int_def Let_def)

theorem relative_time_buckets_witness:
  "relative_time 1000000 (1000000 - 59) = ''just now'' \<and>
   relative_time 1000000 (1000000 - 60) = ''1 min ago'' \<and>
   relative_time 1000000 (1000000 - 3599) = ''59 min ago'' \<and>
   relative_time 1000000 (1000000 - 3600) = ''1 hr ago'' \<and>
   relative_time 1000000 (1000000 - 7200) = ''2 hrs ago'' \<and>
   relative_time 1000000 (1000000 - 86399) = ''23 hrs ago'' \<and>
   relative_time 1000000 (1000000 - 86400) = ''yesterday'' \<and>
   relative_time 1000000 (1000000 - 172799) = ''yesterday'' \<and>
   relative_time 1000000 (1000000 - 172800) = ''2 days ago''"
  using relative_time_buckets [of 1000000 "1000000 - 59"]
    relative_time_buckets [of 1000000 "1000000 - 60"]
    relative_time_buckets [of 1000000 "1000000 - 3599"]
    relative_time_buckets [of 1000000 "1000000 - 3600"]
    relative_time_buckets [of 1000000 "1000000 - 7200"]
    relative_time_buckets [of 1000000 "1000000 - 86399"]
    relative_time_buckets [of 1000000 "1000000 - 86400"]
    relative_time_buckets [of 1000000 "1000000 - 172799"]
    relative_time_buckets [of 1000000 "1000000 - 172800"]
  by (simp add: Let_def str_of_int_def decimal.simps digit_char_def)

subsection \<open>Duplicate text\<close>

lemma captures_text_twice:
  assumes l: "load_clips s = Inr []" and st: "load_settings s = Inr st"
    and m: "2 \<le> get_max_clips st"
  shows "captures pixels [(na, ''text'', Str t), (nb, ''text'', Str t)] s =
           ([Inr True, Inr False],
            save_clips [TextClip (py_int na) t (py_int na) (text_preview t)] s)"
proof -
  let ?c = "TextClip (py_int na) t (py_int na) (text_preview t)"
  have 1: "save_clip pixels na ''text'' (Str t) s = (Inr True, save_clips [?c] s)"
    using m by (simp add: save_clip_text [OF l st] prune_and_save_nonneg)
  have 2: "save_clip pixels nb ''text'' (Str t) (save_clips [?c] s) = (Inr False, save_clips [?c] s)"
    by (simp add: save_clip_text [where clips = "[?c]" and st = st] st)
  show ?thesis by (simp add: 1 2)
qed

lemma captures_text_thrice:
  assumes l: "load_clips s = Inr []" and st: "load_settings s = Inr st"
    and m: "2 \<le> get_max_clips st" and d: "t' \<noteq> t"
  shows "captures pixels [(na, ''text'', Str t), (nb, ''text'', Str t), (nc, ''text'', Str t')] s =
           ([Inr True, Inr False, Inr True],
            save_clips [TextClip (py_int nc) t' (py_int nc) (text_preview t'),
                        TextClip (py_int na) t (py_int na) (text_preview t)]
              (save_clips [TextClip (py_int na) t (py_int na) (text_preview t)] s))"
proof -
  let ?c = "TextClip (py_int na) t (py_int na) (text_preview t)"
  have 1: "save_clip pixels na ''text'' (Str t) s = (Inr True, save_clips [?c] s)"
    using m by (simp add: save_clip_text [OF l st] prune_and_save_nonneg)
  have 2: "save_clip pixels nb ''text'' (Str t) (save_clips [?c] s) = (Inr False, save_clips [?c] s)"
    by (simp add: save_clip_text [where clips = "[?c]" and st = st] st)
  have 3: "save_clip pixels nc ''text'' (Str t') (save_clips [?c] s) =
            (Inr True, save_clips [TextClip (py_int nc) t' (py_int nc) (text_preview t'), ?c]
               (save_clips [?c] s))"
    using m d by (simp add: save_clip_text [where clips = "[?c]" and st = st] st prune_and_save_nonneg)
  show ?thesis by (simp add: 1 2 3)
qed

text \<open>
  C1. Once the index and the settings have loaded, a text capture returns \<^verbatim>\<open>False\<close> exactly
  when the store has a head record, that record is a text clip, and its content equals the
  captured text; the call then leaves the disk as it was. Starting from an empty store with
  room for two clips, capturing the same text twice stores one record, and a third capture
  of a different text stores two, the newer first.
\<close>

theorem text_capture_duplicate:
  assumes "load_clips s = Inr clips" and "load_settings s = Inr st"
  shows
    "(fst (save_clip pixels now ''text'' (Str t) s) = Inr False \<longleftrightarrow>
        clips \<noteq> [] \<and> is_text (hd clips) \<and> content (hd clips) = t) \<and>
     (fst (save_clip pixels now ''text'' (Str t) s) = Inr False \<longrightarrow>
        snd (save_clip pixels now ''text'' (Str t) s) = s) \<and>
     (clips = [] \<and> 2 \<le> get_max_clips st \<and> t' \<noteq> t \<longrightarrow>
        fst (captures pixels [(na, ''text'', Str t), (nb, ''text'', Str t)] s) =
          [Inr True, Inr False] \<and>
        load_clips (snd (captures pixels [(na, ''text'', Str t), (nb, ''text'', Str t)] s)) =
          Inr [TextClip (py_int na) t (py_int na) (text_preview t)] \<and>
        fst (captures pixels
               [(na, ''text'', Str t), (nb, ''text'', Str t), (nc, ''text'', Str t')] s) =
          [Inr True, Inr False, Inr True] \<and>
        load_clips (snd (captures pixels
               [(na, ''text'', Str t), (nb, ''text'', Str t), (nc, ''text'', Str t')] s)) =
          Inr [TextClip (py_int nc) t' (py_int nc) (text_preview t'),
               TextClip (py_int na) t (py_int na) (text_preview t)])"
proof (intro conjI impI)
  show "fst (save_clip pixels now ''text'' (Str t) s) = Inr False \<longleftrightarrow>
        clips \<noteq> [] \<and> is_text (hd clips) \<and> content (hd clips) = t"
    by (simp add: save_clip_text [OF assms] prune_and_save_not_False)
next
  assume "fst (save_clip pixels now ''text'' (Str t) s) = Inr False"
  then show "snd (save_clip pixels now ''text'' (Str t) s) = s"
    by (simp add: save_clip_text [OF assms] prune_and_save_not_False split: if_splits)
next
  assume a: "clips = [] \<and> 2 \<le> get_max_clips st \<and> t' \<noteq> t"
  with assms have l: "load_clips s = Inr []" by simp
  from a have m: "2 \<le> get_max_clips st" and d: "t' \<noteq> t" by simp_all
  show "fst (captures pixels [(na, ''text'', Str t), (nb, ''text'', Str t)] s) =
          [Inr True, Inr False]"
    by (simp only: captures_text_twice [OF l assms(2) m] fst_conv)
  show "load_clips (snd (captures pixels [(na, ''text'', Str t), (nb, ''text'', Str t)] s)) =
          Inr [TextClip (py_int na) t (py_int na) (text_preview t)]"
    by (simp only: captures_text_twice [OF l assms(2) m] snd_conv load_clips_save_clips)
  show "fst (captures pixels
               [(na, ''text'', Str t), (nb, ''text'', Str t), (nc, ''text'', Str t')] s) =
          [Inr True, Inr False, Inr True]"
    by (simp only: captures_text_thrice [OF l assms(2) m d] fst_conv)
  show "load_clips (snd (captures pixels
               [(na, ''text'', Str t), (nb, ''text'', Str t), (nc, ''text'', Str t')] s)) =
          Inr [TextClip (py_int nc) t' (py_int nc) (text_preview t'),
               TextClip (py_int na) t (py_int na) (text_preview t)]"
    by (simp only: captures_text_thrice [OF l assms(2) m d] snd_conv load_clips_save_clips)
qed

theorem text_capture_duplicate_witness:
  "load_clips \<lparr>settings_path = Missing, clips_dir = None\<rparr> = Inr [] \<and>
   fst (save_clip (\<lambda>b. None) 100 ''text'' (Str ''a'') \<lparr>settings_path = Missing, clips_dir = None\<rparr>)
     \<noteq> Inr False \<and>
   fst (captures (\<lambda>b. None) [(100, ''text'', Str ''a''), (101, ''text'', Str ''a'')]
          \<lparr>settings_path = Missing, clips_dir = None\<rparr>) = [Inr True, Inr False] \<and>
   load_clips (snd (captures (\<lambda>b. None) [(100, ''text'', Str ''a''), (101, ''text'', Str ''a'')]
          \<lparr>settings_path = Missing, clips_dir = None\<rparr>)) = Inr [TextClip 100 ''a'' 100 ''a''] \<and>
   load_clips (snd (captures (\<lambda>b. None)
          [(100, ''text'', Str ''a''), (101, ''text'', Str ''a''), (102, ''text'', Str ''b'')]
          \<lparr>settings_path = Missing, clips_dir = None\<rparr>)) =
     Inr [TextClip 102 ''b'' 102 ''b'', TextClip 100 ''a'' 100 ''a''] \<and>
   save_clip (\<lambda>b. None) 101 ''text'' (Str ''a'')
     \<lparr>settings_path = Missing,
      clips_dir = Some \<lparr>clips_json = Json [TextClip 100 ''a'' 100 ''a''], blobs = Map.empty\<rparr>\<rparr> =
     (Inr False,
      \<lparr>settings_path = Missing,
       clips_dir = Some \<lparr>clips_json = Json [TextClip 100 ''a'' 100 ''a''], blobs = Map.empty\<rparr>\<rparr>)"
  using
    text_capture_duplicate [where s = "\<lparr>settings_path = Missing, clips_dir = None\<rparr>"
      and clips = "[]" and pixels = "\<lambda>b. None" and now = 100 and t = "''a''" and t' = "''b''"
      and na = 100 and nb = 101 and nc = 102]
    text_capture_duplicate [where
      s = "\<lparr>settings_path = Missing,
            clips_dir = Some \<lparr>clips_json = Json [TextClip 100 ''a'' 100 ''a''], blobs = Map.empty\<rparr>\<rparr>"
      and clips = "[TextClip 100 ''a'' 100 ''a'']" and pixels = "\<lambda>b. None" and now = 101
      and t = "''a''"]
  by (simp add: load_clips_def load_settings_def get_max_clips_def py_int_def text_preview_def
      prod_eq_iff)

subsection \<open>Duplicate images\<close>

lemma prune_and_save_True:
  assumes "prune_and_save m clips s = (Inr True, sa)"
  shows "0 \<le> m" and "sa = save_clips (take (nat m) clips) (fold remove_blob (rev (drop (nat m) clips)) s)"
proof -
  show "0 \<le> m"
  proof (rule ccontr)
    assume "\<not> 0 \<le> m"
    then have "m < 0" by simp
    from prune_and_save_neg [OF this, of clips s] assms show False by simp
  qed
  from prune_and_save_nonneg [OF this, of clips s] assms
  show "sa = save_clips (take (nat m) clips) (fold remove_blob (rev (drop (nat m) clips)) s)"
    by simp
qed

lemma save_clip_image_True:
  assumes l: "load_clips s = Inr clips" and st: "load_settings s = Inr st"
    and r: "save_clip pixels now ''image'' (Bytes b) s = (Inr True, sa)"
  shows "0 \<le> get_max_clips st"
    and "load_clips sa =
           Inr (take (nat (get_max_clips st))
                  (ImageClip (py_int now) (img_filename (py_int now)) (py_int now)
                     (image_preview pixels b) # clips))"
    and "load_settings sa = Inr st"
    and "read_bytes sa (img_filename (py_int now)) = None \<or>
         read_bytes sa (img_filename (py_int now)) = Some b"
proof -
  let ?new = "ImageClip (py_int now) (img_filename (py_int now)) (py_int now) (image_preview pixels b)"
  from r obtain s1 where w: "write_bytes (img_filename (py_int now)) b s = Inr s1"
    and p: "prune_and_save (get_max_clips st) (?new # clips) s1 = (Inr True, sa)"
    by (auto simp add: save_clip_image [OF l st] split: if_splits sum.splits)
  note t = prune_and_save_True [OF p]
  show "0 \<le> get_max_clips st" by (rule t(1))
  show "load_clips sa = Inr (take (nat (get_max_clips st)) (?new # clips))"
    by (simp add: t(2))
  show "load_settings sa = Inr st"
    by (simp add: t(2) load_settings_write_bytes [OF w] st)
  show "read_bytes sa (img_filename (py_int now)) = None \<or>
        read_bytes sa (img_filename (py_int now)) = Some b"
    by (simp add: t(2) read_bytes_fold_remove read_bytes_write_bytes [OF w])
qed

lemma img_filename_100: "img_filename 100 = ''img_100.png''"
  by (simp add: img_filename_def str_of_int_def decimal.simps digit_char_def)

text \<open>
  C2. Once the index and the settings have loaded, an image capture returns \<^verbatim>\<open>False\<close>
  exactly when the store has a head record, that record is an image clip, and the blob file
  it names is on disk with as many bytes as the captured buffer; the call then leaves the
  disk as it was. Only the length is compared: after a successful image capture, a second
  image of another length is never a duplicate, and a second image of the same length is one
  whatever its bytes, as long as the first record is still the head with its blob on disk.
\<close>

theorem image_capture_duplicate:
  assumes "load_clips s = Inr clips" and "load_settings s = Inr st"
  shows
    "(fst (save_clip pixels now ''image'' (Bytes b) s) = Inr False \<longleftrightarrow>
        clips \<noteq> [] \<and> is_image (hd clips) \<and>
        (\<exists>blob. read_bytes s (filename (hd clips)) = Some blob \<and> length blob = length b)) \<and>
     (fst (save_clip pixels now ''image'' (Bytes b) s) = Inr False \<longrightarrow>
        snd (save_clip pixels now ''image'' (Bytes b) s) = s) \<and>
     (save_clip pixels now ''image'' (Bytes b) s = (Inr True, sa) \<and> length b' \<noteq> length b \<longrightarrow>
        fst (save_clip pixels now' ''image'' (Bytes b') sa) \<noteq> Inr False) \<and>
     (save_clip pixels now ''image'' (Bytes b) s = (Inr True, sa) \<and> length b' = length b \<and>
      1 \<le> get_max_clips st \<and> path_exists sa (img_filename (py_int now)) \<longrightarrow>
        save_clip pixels now' ''image'' (Bytes b') sa = (Inr False, sa))"
proof (intro conjI impI)
  show "fst (save_clip pixels now ''image'' (Bytes b) s) = Inr False \<longleftrightarrow>
        clips \<noteq> [] \<and> is_image (hd clips) \<and>
        (\<exists>blob. read_bytes s (filename (hd clips)) = Some blob \<and> length blob = length b)"
    by (simp add: save_clip_image [OF assms] prune_and_save_not_False split: sum.splits)
next
  assume "fst (save_clip pixels now ''image'' (Bytes b) s) = Inr False"
  then show "snd (save_clip pixels now ''image'' (Bytes b) s) = s"
    by (simp add: save_clip_image [OF assms] prune_and_save_not_False split: if_splits sum.splits)
next
  assume a: "save_clip pixels now ''image'' (Bytes b) s = (Inr True, sa) \<and> length b' \<noteq> length b"
  then have r: "save_clip pixels now ''image'' (Bytes b) s = (Inr True, sa)" by simp
  note t = save_clip_image_True [OF assms r]
  show "fst (save_clip pixels now' ''image'' (Bytes b') sa) \<noteq> Inr False"
  proof (cases "nat (get_max_clips st)")
    case 0
    then show ?thesis
      using t(2) by (simp add: save_clip_image [OF _ t(3)] prune_and_save_not_False split: sum.splits)
  next
    case (Suc k)
    then show ?thesis
      using t(2) t(4) a
      by (auto simp add: save_clip_image [OF _ t(3)] prune_and_save_not_False split: sum.splits)
  qed
next
  assume a: "save_clip pixels now ''image'' (Bytes b) s = (Inr True, sa) \<and> length b' = length b \<and>
      1 \<le> get_max_clips st \<and> path_exists sa (img_filename (py_int now))"
  then have r: "save_clip pixels now ''image'' (Bytes b) s = (Inr True, sa)" by simp
  note t = save_clip_image_True [OF assms r]
  from a obtain k where k: "nat (get_max_clips st) = Suc k"
    by (cases "nat (get_max_clips st)") auto
  from a t(4) have rb: "read_bytes sa (img_filename (py_int now)) = Some b"
    by (auto simp add: path_exists_def)
  show "save_clip pixels now' ''image'' (Bytes b') sa = (Inr False, sa)"
    using t(2) rb a k by (simp add: save_clip_image [OF _ t(3)])
qed

theorem image_capture_duplicate_witness:
  "save_clip (\<lambda>b. None) 100 ''image'' (Bytes [1, 2, 3])
     \<lparr>settings_path = Missing, clips_dir = Some \<lparr>clips_json = Json [], blobs = Map.empty\<rparr>\<rparr> =
     (Inr True,
      \<lparr>settings_path = Missing,
       clips_dir = Some \<lparr>clips_json = Json [ImageClip 100 ''img_100.png'' 100 ''Image''],
                         blobs = [''img_100.png'' \<mapsto> [1, 2, 3]]\<rparr>\<rparr>) \<and>
   save_clip (\<lambda>b. None) 200 ''image'' (Bytes [4, 5, 6])
     \<lparr>settings_path = Missing,
      clips_dir = Some \<lparr>clips_json = Json [ImageClip 100 ''img_100.png'' 100 ''Image''],
                        blobs = [''img_100.png'' \<mapsto> [1, 2, 3]]\<rparr>\<rparr> =
     (Inr False,
      \<lparr>settings_path = Missing,
       clips_dir = Some \<lparr>clips_json = Json [ImageClip 100 ''img_100.png'' 100 ''Image''],
                         blobs = [''img_100.png'' \<mapsto> [1, 2, 3]]\<rparr>\<rparr>) \<and>
   fst (save_clip (\<lambda>b. None) 200 ''image'' (Bytes [7, 8])
     \<lparr>settings_path = Missing,
      clips_dir = Some \<lparr>clips_json = Json [ImageClip 100 ''img_100.png'' 100 ''Image''],
                        blobs = [''img_100.png'' \<mapsto> [1, 2, 3]]\<rparr>\<rparr>) \<noteq> Inr False"
proof -
  let ?s = "\<lparr>settings_path = Missing, clips_dir = Some \<lparr>clips_json = Json [], blobs = Map.empty\<rparr>\<rparr>"
  let ?sa = "\<lparr>settings_path = Missing,
       clips_dir = Some \<lparr>clips_json = Json [ImageClip 100 ''img_100.png'' 100 ''Image''],
                         blobs = [''img_100.png'' \<mapsto> [1::byte, 2, 3]]\<rparr>\<rparr>"
  have e: "save_clip (\<lambda>b. None) 100 ''image'' (Bytes [1, 2, 3]) ?s = (Inr True, ?sa)"
    by (simp add: save_clip_def load_clips_def load_settings_def get_max_clips_def py_int_def
        write_bytes_def img_filename_100 image_preview_def prune_and_save_def prune.simps
        save_clips_def path_exists_def read_bytes_def)
  have l: "load_clips ?s = Inr []" by (simp add: load_clips_def)
  have st: "load_settings ?s = Inr \<lparr>max_clips = Some 50,
               window = Some \<lparr>width = Some 700, height = Some 600, opacity = Some (95 / 100)\<rparr>\<rparr>"
    by (simp add: load_settings_def)
  have p: "path_exists ?sa (img_filename (py_int 100))"
    by (simp add: path_exists_def read_bytes_def py_int_def img_filename_100)
  from image_capture_duplicate [OF l st, where pixels = "\<lambda>b. None" and now = 100
      and b = "[1, 2, 3]" and sa = ?sa and b' = "[4, 5, 6]" and now' = 200]
    image_capture_duplicate [OF l st, where pixels = "\<lambda>b. None" and now = 100
      and b = "[1, 2, 3]" and sa = ?sa and b' = "[7, 8]" and now' = 200]
    e p
  show ?thesis by (simp add: get_max_clips_def)
qed

text \<open>
  C9. When the head record is an image clip whose blob file is not on disk, an image capture
  is never answered \<^verbatim>\<open>False\<close>, whatever the length of the data; with a non-negative
  \<^verbatim>\<open>max_clips\<close> the call returns \<^verbatim>\<open>True\<close> and stores the new record in front of the old
  ones, cut to \<^verbatim>\<open>max_clips\<close> records, so that with room for at least one record the new record is
  the head.
\<close>

theorem image_capture_missing_head_blob:
  assumes l: "load_clips s = Inr (c # cs)" and st: "load_settings s = Inr st"
    and c: "is_image c" and missing: "\<not> path_exists s (filename c)"
  shows
    "fst (save_clip pixels now ''image'' data s) \<noteq> Inr False \<and>
     (0 \<le> get_max_clips st \<longrightarrow>
        fst (save_clip pixels now ''image'' (Bytes b) s) = Inr True \<and>
        load_clips (snd (save_clip pixels now ''image'' (Bytes b) s)) =
          Inr (take (nat (get_max_clips st))
                 (ImageClip (py_int now) (img_filename (py_int now)) (py_int now)
                    (image_preview pixels b) # c # cs))) \<and>
     (1 \<le> get_max_clips st \<longrightarrow>
        load_clips (snd (save_clip pixels now ''image'' (Bytes b) s)) =
          Inr (ImageClip (py_int now) (img_filename (py_int now)) (py_int now)
                 (image_preview pixels b) # take (nat (get_max_clips st) - 1) (c # cs)))"
proof -
  let ?new = "ImageClip (py_int now) (img_filename (py_int now)) (py_int now) (image_preview pixels b)"
  from write_bytes_ok [OF load_clips_nonempty_dir [OF l]]
  obtain s1 where w: "write_bytes (img_filename (py_int now)) b s = Inr s1" by blast
  have nd: "fst (save_clip pixels now ''image'' data s) \<noteq> Inr False"
    using l st missing
    by (simp add: save_clip_def Let_def prune_and_save_not_False split: clip_data.splits sum.splits)
  have step: "save_clip pixels now ''image'' (Bytes b) s =
                prune_and_save (get_max_clips st) (?new # c # cs) s1"
    using missing by (simp add: save_clip_image [OF l st] w path_exists_def)
  have ok: "0 \<le> get_max_clips st \<Longrightarrow>
        fst (save_clip pixels now ''image'' (Bytes b) s) = Inr True \<and>
        load_clips (snd (save_clip pixels now ''image'' (Bytes b) s)) =
          Inr (take (nat (get_max_clips st)) (?new # c # cs))"
    by (simp add: step prune_and_save_nonneg)
  have hd: "1 \<le> get_max_clips st \<Longrightarrow>
        load_clips (snd (save_clip pixels now ''image'' (Bytes b) s)) =
          Inr (?new # take (nat (get_max_clips st) - 1) (c # cs))"
  proof -
    assume m: "1 \<le> get_max_clips st"
    then obtain k where k: "nat (get_max_clips st) = Suc k"
      by (cases "nat (get_max_clips st)") auto
    from m ok have "load_clips (snd (save_clip pixels now ''image'' (Bytes b) s)) =
          Inr (take (nat (get_max_clips st)) (?new # c # cs))" by simp
    then show ?thesis by (simp add: k)
  qed
  from nd ok hd show ?thesis by blast
qed

theorem image_capture_missing_head_blob_witness:
  "fst (save_clip (\<lambda>b. None) 200 ''image'' (Bytes [4, 5, 6])
     \<lparr>settings_path = Missing,
      clips_dir = Some \<lparr>clips_json = Json [ImageClip 100 ''img_100.png'' 100 ''Image''],
                        blobs = Map.empty\<rparr>\<rparr>) = Inr True \<and>
   load_clips (snd (save_clip (\<lambda>b. None) 200 ''image'' (Bytes [4, 5, 6])
     \<lparr>settings_path = Missing,
      clips_dir = Some \<lparr>clips_json = Json [ImageClip 100 ''img_100.png'' 100 ''Image''],
                        blobs = Map.empty\<rparr>\<rparr>)) =
     Inr [ImageClip 200 (img_filename 200) 200 ''Image'',
          ImageClip 100 ''img_100.png'' 100 ''Image'']"
  using image_capture_missing_head_blob [where
      s = "\<lparr>settings_path = Missing,
            clips_dir = Some \<lparr>clips_json = Json [ImageClip 100 ''img_100.png'' 100 ''Image''],
                              blobs = Map.empty\<rparr>\<rparr>"
      and c = "ImageClip 100 ''img_100.png'' 100 ''Image''" and cs = "[]"
      and pixels = "\<lambda>b. None" and now = 200 and b = "[4, 5, 6]"]
  by (simp add: load_clips_def load_settings_def get_max_clips_def path_exists_def read_bytes_def
      py_int_def image_preview_def)

subsection \<open>A capture of an unknown kind\<close>

text \<open>
  C10. A capture whose kind is neither \<^verbatim>\<open>"text"\<close> nor \<^verbatim>\<open>"image"\<close> adds no record: with a
  non-negative \<^verbatim>\<open>max_clips\<close> it returns \<^verbatim>\<open>True\<close>, writes the index anew with the loaded records
  cut to \<^verbatim>\<open>max_clips\<close>, and deletes the blobs of the image records it cut off.
\<close>

theorem unknown_kind_capture:
  assumes l: "load_clips s = Inr clips" and st: "load_settings s = Inr st"
    and k: "clip_type \<noteq> ''text''" "clip_type \<noteq> ''image''"
    and m: "0 \<le> get_max_clips st"
  shows
    "fst (save_clip pixels now clip_type data s) = Inr True \<and>
     load_clips (snd (save_clip pixels now clip_type data s)) =
       Inr (take (nat (get_max_clips st)) clips) \<and>
     clips_dir (snd (save_clip pixels now clip_type data s)) \<noteq> None \<and>
     load_settings (snd (save_clip pixels now clip_type data s)) = Inr st \<and>
     (\<forall>name. read_bytes (snd (save_clip pixels now clip_type data s)) name =
        (if \<exists>c\<in>set (drop (nat (get_max_clips st)) clips). is_image c \<and> filename c = name
         then None else read_bytes s name))"
  using m st
  by (simp add: save_clip_other [OF l st k] prune_and_save_nonneg read_bytes_fold_remove)

theorem unknown_kind_capture_witness:
  "fst (save_clip (\<lambda>b. None) 300 ''file'' (Str ''x'')
     \<lparr>settings_path = Json \<lparr>max_clips = Some 1, window = None\<rparr>,
      clips_dir = Some \<lparr>clips_json = Json [TextClip 200 ''b'' 200 ''b'',
                                            ImageClip 100 ''img_100.png'' 100 ''Image''],
                        blobs = [''img_100.png'' \<mapsto> [1, 2, 3]]\<rparr>\<rparr>) = Inr True \<and>
   load_clips (snd (save_clip (\<lambda>b. None) 300 ''file'' (Str ''x'')
     \<lparr>settings_path = Json \<lparr>max_clips = Some 1, window = None\<rparr>,
      clips_dir = Some \<lparr>clips_json = Json [TextClip 200 ''b'' 200 ''b'',
                                            ImageClip 100 ''img_100.png'' 100 ''Image''],
                        blobs = [''img_100.png'' \<mapsto> [1, 2, 3]]\<rparr>\<rparr>)) =
     Inr [TextClip 200 ''b'' 200 ''b''] \<and>
   read_bytes (snd (save_clip (\<lambda>b. None) 300 ''file'' (Str ''x'')
     \<lparr>settings_path = Json \<lparr>max_clips = Some 1, window = None\<rparr>,
      clips_dir = Some \<lparr>clips_json = Json [TextClip 200 ''b'' 200 ''b'',
                                            ImageClip 100 ''img_100.png'' 100 ''Image''],
                        blobs = [''img_100.png'' \<mapsto> [1, 2, 3]]\<rparr>\<rparr>)) ''img_100.png'' = None"
  using unknown_kind_capture [where
      s = "\<lparr>settings_path = Json \<lparr>max_clips = Some 1, window = None\<rparr>,
            clips_dir = Some \<lparr>clips_json = Json [TextClip 200 ''b'' 200 ''b'',
                                            ImageClip 100 ''img_100.png'' 100 ''Image''],
                        blobs = [''img_100.png'' \<mapsto> [1, 2, 3]]\<rparr>\<rparr>"
      and clips = "[TextClip 200 ''b'' 200 ''b'', ImageClip 100 ''img_100.png'' 100 ''Image'']"
      and st = "\<lparr>max_clips = Some 1, window = None\<rparr>"
      and clip_type = "''file''" and pixels = "\<lambda>b. None" and now = 300 and data = "Str ''x''"]
  by (simp add: load_clips_def load_settings_def get_max_clips_def)

subsection \<open>Clearing\<close>

text \<open>
  C4. Once the index has loaded, \<^verbatim>\<open>clear_all_clips\<close> returns normally, the index it leaves is
  empty, and no blob named by an image record of the old index is on disk, whether or not it
  was there before; every other file is as it was.
\<close>

theorem clear_all_clips_empties:
  assumes l: "load_clips s = Inr clips"
  shows
    "fst (clear_all_clips s) = Inr () \<and>
     load_clips (snd (clear_all_clips s)) = Inr [] \<and>
     (\<forall>c\<in>set clips. is_image c \<longrightarrow> \<not> path_exists (snd (clear_all_clips s)) (filename c)) \<and>
     (\<forall>name. (\<forall>c\<in>set clips. is_image c \<longrightarrow> filename c \<noteq> name) \<longrightarrow>
        read_bytes (snd (clear_all_clips s)) name = read_bytes s name)"
  using l by (auto simp add: clear_all_clips_def path_exists_def read_bytes_fold_remove)

theorem clear_all_clips_empties_witness:
  "fst (clear_all_clips
     \<lparr>settings_path = Missing,
      clips_dir = Some \<lparr>clips_json = Json [ImageClip 200 ''img_200.png'' 200 ''Image'',
                                            TextClip 150 ''b'' 150 ''b'',
                                            ImageClip 100 ''img_100.png'' 100 ''Image''],
                        blobs = [''img_100.png'' \<mapsto> [1, 2, 3], ''other'' \<mapsto> [9]]\<rparr>\<rparr>) = Inr () \<and>
   load_clips (snd (clear_all_clips
     \<lparr>settings_path = Missing,
      clips_dir = Some \<lparr>clips_json = Json [ImageClip 200 ''img_200.png'' 200 ''Image'',
                                            TextClip 150 ''b'' 150 ''b'',
                                            ImageClip 100 ''img_100.png'' 100 ''Image''],
                        blobs = [''img_100.png'' \<mapsto> [1, 2, 3], ''other'' \<mapsto> [9]]\<rparr>\<rparr>)) = Inr [] \<and>
   \<not> path_exists (snd (clear_all_clips
     \<lparr>settings_path = Missing,
      clips_dir = Some \<lparr>clips_json = Json [ImageClip 200 ''img_200.png'' 200 ''Image'',
                                            TextClip 150 ''b'' 150 ''b'',
                                            ImageClip 100 ''img_100.png'' 100 ''Image''],
                        blobs = [''img_100.png'' \<mapsto> [1, 2, 3], ''other'' \<mapsto> [9]]\<rparr>\<rparr>)) ''img_100.png'' \<and>
   \<not> path_exists (snd (clear_all_clips
     \<lparr>settings_path = Missing,
      clips_dir = Some \<lparr>clips_json = Json [ImageClip 200 ''img_200.png'' 200 ''Image'',
                                            TextClip 150 ''b'' 150 ''b'',
                                            ImageClip 100 ''img_100.png'' 100 ''Image''],
                        blobs = [''img_100.png'' \<mapsto> [1, 2, 3], ''other'' \<mapsto> [9]]\<rparr>\<rparr>)) ''img_200.png'' \<and>
   read_bytes (snd (clear_all_clips
     \<lparr>settings_path = Missing,
      clips_dir = Some \<lparr>clips_json = Json [ImageClip 200 ''img_200.png'' 200 ''Image'',
                                            TextClip 150 ''b'' 150 ''b'',
                                            ImageClip 100 ''img_100.png'' 100 ''Image''],
                        blobs = [''img_100.png'' \<mapsto> [1, 2, 3], ''other'' \<mapsto> [9]]\<rparr>\<rparr>)) ''other'' = Some [9]"
  using clear_all_clips_empties [where
      s = "\<lparr>settings_path = Missing,
      clips_dir = Some \<lparr>clips_json = Json [ImageClip 200 ''img_200.png'' 200 ''Image'',
                                            TextClip 150 ''b'' 150 ''b'',
                                            ImageClip 100 ''img_100.png'' 100 ''Image''],
                        blobs = [''img_100.png'' \<mapsto> [1, 2, 3], ''other'' \<mapsto> [9]]\<rparr>\<rparr>"
      and clips = "[ImageClip 200 ''img_200.png'' 200 ''Image'',
                                            TextClip 150 ''b'' 150 ''b'',
                                            ImageClip 100 ''img_100.png'' 100 ''Image'']"]
  by (simp add: load_clips_def read_bytes_def)

subsection \<open>Loading the settings\<close>

lemma load_clips_error: "load_clips s = Inl e \<Longrightarrow> e = JSONDecodeError"
  by (auto simp add: load_clips_def split: option.splits json_file.splits)

lemma save_clip_settings_error:
  assumes "load_settings s = Inl e"
  shows "save_clip pixels now clip_type data s = (Inl JSONDecodeError, s)"
proof (cases "load_clips s")
  case (Inl e')
  with load_clips_error [OF Inl] show ?thesis by (simp add: save_clip_def)
next
  case (Inr clips)
  from assms have "e = JSONDecodeError"
    by (auto simp add: load_settings_def split: json_file.splits)
  with Inr assms show ?thesis by (simp add: save_clip_def)
qed

lemma ensure_panel_defaults:
  assumes "load_settings s = Inr v" and "the_panel w = None"
  shows "ensure_panel s w =
     Inr (w\<lparr>the_panel := Some
       \<lparr>frame_width =
          (case window v of None \<Rightarrow> 700
           | Some c \<Rightarrow> (case width c of None \<Rightarrow> 700 | Some x \<Rightarrow> x)),
        frame_height =
          (case window v of None \<Rightarrow> 600
           | Some c \<Rightarrow> (case height c of None \<Rightarrow> 600 | Some x \<Rightarrow> x)),
        alpha =
          (case window v of None \<Rightarrow> 95 / 100
           | Some c \<Rightarrow> (case opacity c of None \<Rightarrow> 95 / 100 | Some x \<Rightarrow> x)),
        html = [], title = [], visible = False\<rparr>\<rparr>)"
  using assms by (simp add: ensure_panel_def Let_def split: option.splits)

text \<open>
  A settings file that is present but does not parse: \<^verbatim>\<open>load_settings\<close> raises the parse
  error instead of returning the defaults, and a capture on that disk fails with it.
\<close>

theorem load_settings_malformed_counterexample:
  "load_settings \<lparr>settings_path = Malformed, clips_dir = None\<rparr> = Inl JSONDecodeError \<and>
   load_settings \<lparr>settings_path = Malformed, clips_dir = None\<rparr> \<noteq>
     Inr \<lparr>max_clips = Some 50,
          window = Some \<lparr>width = Some 700, height = Some 600, opacity = Some (95 / 100)\<rparr>\<rparr> \<and>
   save_clip (\<lambda>b. None) 100 ''text'' (Str ''a'') \<lparr>settings_path = Malformed, clips_dir = None\<rparr> =
     (Inl JSONDecodeError, \<lparr>settings_path = Malformed, clips_dir = None\<rparr>)"
  by (simp add: load_settings_def load_clips_def save_clip_def)

text \<open>
  C5, as the code has it. A settings file that is absent gives the defaults (\<^verbatim>\<open>max_clips\<close> 50,
  window 700 by 600 at opacity 0.95). A file that parses is returned as it is, and every key
  absent from it reads as its default where it is used: \<^verbatim>\<open>max_clips\<close> as 50 in a capture,
  and \<^verbatim>\<open>window\<close>, \<^verbatim>\<open>width\<close>, \<^verbatim>\<open>height\<close> and \<^verbatim>\<open>opacity\<close> as 700, 600 and 0.95 when the panel is
  built. A file that is present but does not parse makes \<^verbatim>\<open>load_settings\<close> raise: a capture
  then fails with the parse error and leaves the disk as it was, and so does building the
  panel, and with it the first display of a clip.
\<close>

theorem load_settings_cases:
  "(settings_path s = Missing \<longrightarrow>
      load_settings s =
        Inr \<lparr>max_clips = Some 50,
             window = Some \<lparr>width = Some 700, height = Some 600, opacity = Some (95 / 100)\<rparr>\<rparr> \<and>
      get_max_clips \<lparr>max_clips = Some 50,
             window = Some \<lparr>width = Some 700, height = Some 600, opacity = Some (95 / 100)\<rparr>\<rparr> = 50 \<and>
      (the_panel w = None \<longrightarrow>
         ensure_panel s w =
           Inr (w\<lparr>the_panel := Some \<lparr>frame_width = 700, frame_height = 600, alpha = 95 / 100,
                                      html = [], title = [], visible = False\<rparr>\<rparr>))) \<and>
   (settings_path s = Json v \<longrightarrow>
      load_settings s = Inr v \<and>
      (max_clips v = None \<longrightarrow> get_max_clips v = 50) \<and>
      (\<forall>m. max_clips v = Some m \<longrightarrow> get_max_clips v = m) \<and>
      (the_panel w = None \<longrightarrow>
         ensure_panel s w =
           Inr (w\<lparr>the_panel := Some
             \<lparr>frame_width =
                (case window v of None \<Rightarrow> 700
                 | Some c \<Rightarrow> (case width c of None \<Rightarrow> 700 | Some x \<Rightarrow> x)),
              frame_height =
                (case window v of None \<Rightarrow> 600
                 | Some c \<Rightarrow> (case height c of None \<Rightarrow> 600 | Some x \<Rightarrow> x)),
              alpha =
                (case window v of None \<Rightarrow> 95 / 100
                 | Some c \<Rightarrow> (case opacity c of None \<Rightarrow> 95 / 100 | Some x \<Rightarrow> x)),
              html = [], title = [], visible = False\<rparr>\<rparr>)) \<and>
      (the_panel w = None \<and> window v = None \<longrightarrow>
         ensure_panel s w =
           Inr (w\<lparr>the_panel := Some \<lparr>frame_width = 700, frame_height = 600, alpha = 95 / 100,
                                      html = [], title = [], visible = False\<rparr>\<rparr>)) \<and>
      (the_panel w = None \<and>
       window v = Some \<lparr>width = None, height = None, opacity = None\<rparr> \<longrightarrow>
         ensure_panel s w =
           Inr (w\<lparr>the_panel := Some \<lparr>frame_width = 700, frame_height = 600, alpha = 95 / 100,
                                      html = [], title = [], visible = False\<rparr>\<rparr>)) \<and>
      (the_panel w = None \<and> window v = Some c \<and> width c = None \<longrightarrow>
         (\<exists>p. ensure_panel s w = Inr (w\<lparr>the_panel := Some p\<rparr>) \<and> frame_width p = 700)) \<and>
      (the_panel w = None \<and> window v = Some c \<and> height c = None \<longrightarrow>
         (\<exists>p. ensure_panel s w = Inr (w\<lparr>the_panel := Some p\<rparr>) \<and> frame_height p = 600)) \<and>
      (the_panel w = None \<and> window v = Some c \<and> opacity c = None \<longrightarrow>
         (\<exists>p. ensure_panel s w = Inr (w\<lparr>the_panel := Some p\<rparr>) \<and> alpha p = 95 / 100))) \<and>
   (settings_path s = Malformed \<longrightarrow>
      load_settings s = Inl JSONDecodeError \<and>
      save_clip pixels now clip_type data s = (Inl JSONDecodeError, s) \<and>
      (the_panel w = None \<longrightarrow>
         ensure_panel s w = Inl JSONDecodeError \<and>
         show_clip strftime b64encode s clip w = Inl JSONDecodeError))"
proof (intro conjI impI allI)
  assume m: "settings_path s = Malformed"
  then show l: "load_settings s = Inl JSONDecodeError" by (simp add: load_settings_def)
  show "save_clip pixels now clip_type data s = (Inl JSONDecodeError, s)"
    by (rule save_clip_settings_error [OF l])
  assume "the_panel w = None"
  with l show "ensure_panel s w = Inl JSONDecodeError"
    and "show_clip strftime b64encode s clip w = Inl JSONDecodeError"
    by (simp_all add: show_clip_def ensure_panel_def)
next
  assume "settings_path s = Missing" and p: "the_panel w = None"
  then have "load_settings s =
        Inr \<lparr>max_clips = Some 50,
             window = Some \<lparr>width = Some 700, height = Some 600, opacity = Some (95 / 100)\<rparr>\<rparr>"
    by (simp add: load_settings_def)
  from ensure_panel_defaults [OF this p]
  show "ensure_panel s w =
           Inr (w\<lparr>the_panel := Some \<lparr>frame_width = 700, frame_height = 600, alpha = 95 / 100,
                                      html = [], title = [], visible = False\<rparr>\<rparr>)"
    by simp
next
  assume j: "settings_path s = Json v" and p: "the_panel w = None"
  then have l: "load_settings s = Inr v" by (simp add: load_settings_def)
  from ensure_panel_defaults [OF l p]
  show "ensure_panel s w =
           Inr (w\<lparr>the_panel := Some
             \<lparr>frame_width =
                (case window v of None \<Rightarrow> 700
                 | Some c \<Rightarrow> (case width c of None \<Rightarrow> 700 | Some x \<Rightarrow> x)),
              frame_height =
                (case window v of None \<Rightarrow> 600
                 | Some c \<Rightarrow> (case height c of None \<Rightarrow> 600 | Some x \<Rightarrow> x)),
              alpha =
                (case window v of None \<Rightarrow> 95 / 100
                 | Some c \<Rightarrow> (case opacity c of None \<Rightarrow> 95 / 100 | Some x \<Rightarrow> x)),
              html = [], title = [], visible = False\<rparr>\<rparr>)" .
next
  assume j: "settings_path s = Json v" and p: "the_panel w = None \<and> window v = None"
  then have l: "load_settings s = Inr v" by (simp add: load_settings_def)
  from ensure_panel_defaults [OF l] p
  show "ensure_panel s w =
           Inr (w\<lparr>the_panel := Some \<lparr>frame_width = 700, frame_height = 600, alpha = 95 / 100,
                                      html = [], title = [], visible = False\<rparr>\<rparr>)"
    by simp
next
  assume j: "settings_path s = Json v"
    and p: "the_panel w = None \<and> window v = Some \<lparr>width = None, height = None, opacity = None\<rparr>"
  then have l: "load_settings s = Inr v" by (simp add: load_settings_def)
  from ensure_panel_defaults [OF l] p
  show "ensure_panel s w =
           Inr (w\<lparr>the_panel := Some \<lparr>frame_width = 700, frame_height = 600, alpha = 95 / 100,
                                      html = [], title = [], visible = False\<rparr>\<rparr>)"
    by simp
next
  assume j: "settings_path s = Json v"
    and p: "the_panel w = None \<and> window v = Some c \<and> width c = None"
  then have l: "load_settings s = Inr v" by (simp add: load_settings_def)
  from p have pw: "the_panel w = None" and wv: "window v = Some c" and k: "width c = None"
    by simp_all
  show "\<exists>p. ensure_panel s w = Inr (w\<lparr>the_panel := Some p\<rparr>) \<and> frame_width p = 700"
    unfolding ensure_panel_defaults [OF l pw]
    by (rule exI, rule conjI, rule refl) (simp add: wv k)
next
  assume j: "settings_path s = Json v"
    and p: "the_panel w = None \<and> window v = Some c \<and> height c = None"
  then have l: "load_settings s = Inr v" by (simp add: load_settings_def)
  from p have pw: "the_panel w = None" and wv: "window v = Some c" and k: "height c = None"
    by simp_all
  show "\<exists>p. ensure_panel s w = Inr (w\<lparr>the_panel := Some p\<rparr>) \<and> frame_height p = 600"
    unfolding ensure_panel_defaults [OF l pw]
    by (rule exI, rule conjI, rule refl) (simp add: wv k)
next
  assume j: "settings_path s = Json v"
    and p: "the_panel w = None \<and> window v = Some c \<and> opacity c = None"
  then have l: "load_settings s = Inr v" by (simp add: load_settings_def)
  from p have pw: "the_panel w = None" and wv: "window v = Some c" and k: "opacity c = None"
    by simp_all
  show "\<exists>p. ensure_panel s w = Inr (w\<lparr>the_panel := Some p\<rparr>) \<and> alpha p = 95 / 100"
    unfolding ensure_panel_defaults [OF l pw]
    by (rule exI, rule conjI, rule refl) (simp add: wv k)
qed (simp_all add: load_settings_def get_max_clips_def)

theorem load_settings_cases_witness:
  "load_settings \<lparr>settings_path = Missing, clips_dir = None\<rparr> =
     Inr \<lparr>max_clips = Some 50,
          window = Some \<lparr>width = Some 700, height = Some 600, opacity = Some (95 / 100)\<rparr>\<rparr> \<and>
   ensure_panel \<lparr>settings_path = Missing, clips_dir = None\<rparr>
     \<lparr>the_panel = None, current_clip_id = None, current_clip = None\<rparr> =
     Inr \<lparr>the_panel = Some \<lparr>frame_width = 700, frame_height = 600, alpha = 95 / 100,
                              html = [], title = [], visible = False\<rparr>,
          current_clip_id = None, current_clip = None\<rparr> \<and>
   load_settings \<lparr>settings_path = Json \<lparr>max_clips = None, window = None\<rparr>, clips_dir = None\<rparr> =
     Inr \<lparr>max_clips = None, window = None\<rparr> \<and>
   get_max_clips \<lparr>max_clips = None, window = None\<rparr> = 50 \<and>
   ensure_panel \<lparr>settings_path = Json \<lparr>max_clips = None, window = None\<rparr>, clips_dir = None\<rparr>
     \<lparr>the_panel = None, current_clip_id = None, current_clip = None\<rparr> =
     Inr \<lparr>the_panel = Some \<lparr>frame_width = 700, frame_height = 600, alpha = 95 / 100,
                              html = [], title = [], visible = False\<rparr>,
          current_clip_id = None, current_clip = None\<rparr> \<and>
   ensure_panel
     \<lparr>settings_path = Json \<lparr>max_clips = Some 3,
        window = Some \<lparr>width = Some 800, height = None, opacity = None\<rparr>\<rparr>, clips_dir = None\<rparr>
     \<lparr>the_panel = None, current_clip_id = None, current_clip = None\<rparr> =
     Inr \<lparr>the_panel = Some \<lparr>frame_width = 800, frame_height = 600, alpha = 95 / 100,
                              html = [], title = [], visible = False\<rparr>,
          current_clip_id = None, current_clip = None\<rparr> \<and>
   get_max_clips \<lparr>max_clips = Some 3,
        window = Some \<lparr>width = Some 800, height = None, opacity = None\<rparr>\<rparr> = 3 \<and>
   load_settings \<lparr>settings_path = Malformed, clips_dir = None\<rparr> = Inl JSONDecodeError \<and>
   save_clip (\<lambda>b. None) 100 ''text'' (Str ''a'') \<lparr>settings_path = Malformed, clips_dir = None\<rparr> =
     (Inl JSONDecodeError, \<lparr>settings_path = Malformed, clips_dir = None\<rparr>) \<and>
   show_clip (\<lambda>t. ''then'') (\<lambda>b. ''data'') \<lparr>settings_path = Malformed, clips_dir = None\<rparr>
     (TextClip 100 ''a'' 100 ''a'')
     \<lparr>the_panel = None, current_clip_id = None, current_clip = None\<rparr> = Inl JSONDecodeError"
  using
    load_settings_cases [where s = "\<lparr>settings_path = Missing, clips_dir = None\<rparr>"
      and w = "\<lparr>the_panel = None, current_clip_id = None, current_clip = None\<rparr>"]
    load_settings_cases [where
      s = "\<lparr>settings_path = Json \<lparr>max_clips = None, window = None\<rparr>, clips_dir = None\<rparr>"
      and v = "\<lparr>max_clips = None, window = None\<rparr>"
      and w = "\<lparr>the_panel = None, current_clip_id = None, current_clip = None\<rparr>"]
    load_settings_cases [where
      s = "\<lparr>settings_path = Json \<lparr>max_clips = Some 3,
        window = Some \<lparr>width = Some 800, height = None, opacity = None\<rparr>\<rparr>, clips_dir = None\<rparr>"
      and v = "\<lparr>max_clips = Some 3,
        window = Some \<lparr>width = Some 800, height = None, opacity = None\<rparr>\<rparr>"
      and w = "\<lparr>the_panel = None, current_clip_id = None, current_clip = None\<rparr>"
      and c = "\<lparr>width = Some 800, height = None, opacity = None\<rparr>"]
    load_settings_cases [where s = "\<lparr>settings_path = Malformed, clips_dir = None\<rparr>"
      and pixels = "\<lambda>b. None" and now = 100 and clip_type = "''text''" and data = "Str ''a''"
      and w = "\<lparr>the_panel = None, current_clip_id = None, current_clip = None\<rparr>"
      and strftime = "\<lambda>t. ''then''" and b64encode = "\<lambda>b. ''data''"
      and clip = "TextClip 100 ''a'' 100 ''a''"]
  by simp

subsection \<open>Copy-back\<close>












subsection \<open>A blob that is missing\<close>

lemma render_image_preview_missing:
  "\<not> path_exists s name \<Longrightarrow>
   render_image_preview strftime b64encode s name ts =
     ''<html><body><p>Image not found: '' @ name @ ''</p></body></html>''"
  by (simp add: render_image_preview_def path_exists_def)

text \<open>
  C8. For an image record whose blob file is not on disk the renderer returns the "not found"
  document that names the file, and the copy action is to leave the pasteboard as it is. The
  renderer does so. The handler does not: it empties the pasteboard before it looks for the
  file, so the string held before is gone, while for a window that shows no clip it returns
  with the pasteboard untouched.
\<close>

theorem missing_blob_copy_clears_pasteboard:
  "render_image_preview (\<lambda>t. ''then'') (\<lambda>b. ''data'')
     \<lparr>settings_path = Missing,
      clips_dir = Some \<lparr>clips_json = Json [ImageClip 100 ''img_100.png'' 100 ''Image''],
                        blobs = Map.empty\<rparr>\<rparr> ''img_100.png'' 100 =
     ''<html><body><p>Image not found: img_100.png</p></body></html>'' \<and>
   copy_message_handler
     (Some \<lparr>the_panel = None, current_clip_id = Some 100,
            current_clip = Some (ImageClip 100 ''img_100.png'' 100 ''Image'')\<rparr>)
     \<lparr>settings_path = Missing,
      clips_dir = Some \<lparr>clips_json = Json [ImageClip 100 ''img_100.png'' 100 ''Image''],
                        blobs = Map.empty\<rparr>\<rparr>
     [NSPasteboardTypeString \<mapsto> Str ''kept''] = Map.empty \<and>
   copy_message_handler
     (Some \<lparr>the_panel = None, current_clip_id = Some 100,
            current_clip = Some (ImageClip 100 ''img_100.png'' 100 ''Image'')\<rparr>)
     \<lparr>settings_path = Missing,
      clips_dir = Some \<lparr>clips_json = Json [ImageClip 100 ''img_100.png'' 100 ''Image''],
                        blobs = Map.empty\<rparr>\<rparr>
     [NSPasteboardTypeString \<mapsto> Str ''kept''] \<noteq> [NSPasteboardTypeString \<mapsto> Str ''kept''] \<and>
   copy_message_handler
     (Some \<lparr>the_panel = None, current_clip_id = None, current_clip = None\<rparr>)
     \<lparr>settings_path = Missing,
      clips_dir = Some \<lparr>clips_json = Json [ImageClip 100 ''img_100.png'' 100 ''Image''],
                        blobs = Map.empty\<rparr>\<rparr>
     [NSPasteboardTypeString \<mapsto> Str ''kept''] = [NSPasteboardTypeString \<mapsto> Str ''kept'']"
  using map_upd_nonempty [of Map.empty NSPasteboardTypeString "Str ''kept''"]
  by (simp add: copy_message_handler_def read_bytes_def render_image_preview_def
      eq_commute [of Map.empty])

subsection \<open>Bounded retention\<close>

text \<open>Blob names are told apart by the time stamp they are built from.\<close>

lemma digit_char_inj: "a < 10 \<Longrightarrow> b < 10 \<Longrightarrow> digit_char a = digit_char b \<Longrightarrow> a = b"
proof -
  assume a: "a < 10" and b: "b < 10" and e: "digit_char a = digit_char b"
  have d: "distinct ''0123456789''" by simp
  from a b have "a < length ''0123456789''" "b < length ''0123456789''" by simp_all
  with d e show "a = b" by (simp add: digit_char_def nth_eq_iff_index_eq)
qed

lemma decimal_not_Nil: "decimal n \<noteq> []"
  by (subst decimal.simps) simp

lemma decimal_digits: "set (decimal n) \<subseteq> set ''0123456789''"
proof (induction n rule: decimal.induct)
  case (1 n)
  have "n mod 10 < length ''0123456789''" by simp
  then have "digit_char (n mod 10) \<in> set ''0123456789''"
    unfolding digit_char_def by (rule nth_mem)
  with "1.IH" show ?case by (subst decimal.simps) auto
qed

lemma decimal_inj: "decimal n = decimal m \<Longrightarrow> n = m"
proof (induction n arbitrary: m rule: decimal.induct)
  case (1 n)
  from "1.prems" have e:
    "(if n div 10 = 0 then [] else decimal (n div 10)) @ [digit_char (n mod 10)] =
     (if m div 10 = 0 then [] else decimal (m div 10)) @ [digit_char (m mod 10)]"
    by (subst (asm) decimal.simps, subst (asm) (2) decimal.simps) simp
  then have l: "digit_char (n mod 10) = digit_char (m mod 10)"
    and p: "(if n div 10 = 0 then [] else decimal (n div 10)) =
            (if m div 10 = 0 then [] else decimal (m div 10))" by simp_all
  from l have md: "n mod 10 = m mod 10" by (rule digit_char_inj [rotated 2]) simp_all
  have dv: "n div 10 = m div 10"
  proof (cases "n div 10 = 0")
    case True
    with p decimal_not_Nil [of "m div 10"] show ?thesis by (auto split: if_splits)
  next
    case False
    with p decimal_not_Nil [of "n div 10"] have "m div 10 \<noteq> 0" and "decimal (n div 10) = decimal (m div 10)"
      by (auto split: if_splits)
    with "1.IH" [OF False] show ?thesis by simp
  qed
  from md dv show ?case by (metis div_mult_mod_eq)
qed

lemma str_of_int_inj: "str_of_int i = str_of_int j \<Longrightarrow> i = j"
proof -
  assume e: "str_of_int i = str_of_int j"
  have nm: "\<And>n. CHR ''-'' \<notin> set (decimal n)"
    using decimal_digits by fastforce
  have hd: "\<And>n xs. CHR ''-'' # xs \<noteq> decimal n"
    using nm by (metis list.set_intros(1))
  show "i = j"
  proof (cases "i < 0")
    case True
    show ?thesis
    proof (cases "j < 0")
      case j: True
      with True e have "decimal (nat (- i)) = decimal (nat (- j))" by (simp add: str_of_int_def)
      from decimal_inj [OF this] True j show ?thesis by simp
    next
      case False
      with True e hd show ?thesis by (simp add: str_of_int_def)
    qed
  next
    case False
    show ?thesis
    proof (cases "j < 0")
      case True
      with False e hd [of "decimal (nat (- j))" "nat i"] show ?thesis by (simp add: str_of_int_def)
    next
      case j: False
      with False e have "decimal (nat i) = decimal (nat j)" by (simp add: str_of_int_def)
      from decimal_inj [OF this] False j show ?thesis by simp
    qed
  qed
qed

lemma img_filename_inj: "img_filename a = img_filename b \<Longrightarrow> a = b"
  by (simp add: img_filename_def str_of_int_inj)

text \<open>
  What a capture that returns \<^verbatim>\<open>True\<close> under \<^verbatim>\<open>"text"\<close> or \<^verbatim>\<open>"image"\<close> has done to the index
  and to the blobs.
\<close>

lemma save_clip_True_prune:
  assumes l: "load_clips s = Inr clips" and st: "load_settings s = Inr st"
    and k: "k = ''text'' \<or> k = ''image''"
    and r: "save_clip pixels now k d s = (Inr True, sa)"
  shows "\<exists>s1. prune_and_save (get_max_clips st) (new_clip pixels now d # clips) s1 = (Inr True, sa) \<and>
           load_settings s1 = Inr st \<and>
           (\<forall>name. read_bytes s name = None \<and> name \<noteq> img_filename (py_int now) \<longrightarrow>
              read_bytes s1 name = None)"
proof (cases d)
  case (Str t)
  show ?thesis
  proof (cases "k = ''text''")
    case True
    with r Str have "prune_and_save (get_max_clips st) (new_clip pixels now d # clips) s = (Inr True, sa)"
      by (simp add: save_clip_text [OF l st] split: if_splits)
    with st show ?thesis by blast
  next
    case False
    with k have "k = ''image''" by simp
    with r Str l st have False by (simp add: save_clip_def Let_def split: if_splits)
    then show ?thesis ..
  qed
next
  case (Bytes b)
  show ?thesis
  proof (cases "k = ''text''")
    case True
    with r Bytes l st have False by (simp add: save_clip_def Let_def split: if_splits)
    then show ?thesis ..
  next
    case False
    with k have i: "k = ''image''" by simp
    from r i Bytes obtain s1 where w: "write_bytes (img_filename (py_int now)) b s = Inr s1"
      and p: "prune_and_save (get_max_clips st) (new_clip pixels now d # clips) s1 = (Inr True, sa)"
      by (auto simp add: save_clip_image [OF l st] split: if_splits sum.splits)
    have "load_settings s1 = Inr st" by (simp add: load_settings_write_bytes [OF w] st)
    moreover have "\<forall>name. read_bytes s name = None \<and> name \<noteq> img_filename (py_int now) \<longrightarrow>
              read_bytes s1 name = None"
      by (simp add: read_bytes_write_bytes [OF w])
    ultimately show ?thesis using p by blast
  qed
qed

lemma save_clip_True_step:
  assumes l: "load_clips s = Inr clips" and st: "load_settings s = Inr st"
    and k: "k = ''text'' \<or> k = ''image''"
    and r: "save_clip pixels now k d s = (Inr True, sa)"
  shows "load_clips sa = Inr (take (nat (get_max_clips st)) (new_clip pixels now d # clips))"
    and "load_settings sa = Inr st"
    and "\<And>e. e \<in> set (drop (nat (get_max_clips st)) (new_clip pixels now d # clips)) \<Longrightarrow>
           is_image e \<Longrightarrow> read_bytes sa (filename e) = None"
    and "\<And>name. read_bytes s name = None \<Longrightarrow> name \<noteq> img_filename (py_int now) \<Longrightarrow>
           read_bytes sa name = None"
proof -
  from save_clip_True_prune [OF l st k r] obtain s1 where
    p: "prune_and_save (get_max_clips st) (new_clip pixels now d # clips) s1 = (Inr True, sa)"
    and s1: "load_settings s1 = Inr st"
    and b: "\<And>name. read_bytes s name = None \<Longrightarrow> name \<noteq> img_filename (py_int now) \<Longrightarrow>
              read_bytes s1 name = None"
    by blast
  note sa = prune_and_save_True(2) [OF p]
  show "load_clips sa = Inr (take (nat (get_max_clips st)) (new_clip pixels now d # clips))"
    by (simp add: sa)
  show "load_settings sa = Inr st" by (simp add: sa s1)
  show "\<And>e. e \<in> set (drop (nat (get_max_clips st)) (new_clip pixels now d # clips)) \<Longrightarrow>
           is_image e \<Longrightarrow> read_bytes sa (filename e) = None"
    by (auto simp add: sa read_bytes_fold_remove)
  show "\<And>name. read_bytes s name = None \<Longrightarrow> name \<noteq> img_filename (py_int now) \<Longrightarrow>
           read_bytes sa name = None"
    by (simp add: sa read_bytes_fold_remove b)
qed

lemma captures_append:
  "captures pixels (xs @ ys) s =
     (case captures pixels xs s of
        (rs, s1) \<Rightarrow> (case captures pixels ys s1 of (rs', s2) \<Rightarrow> (rs @ rs', s2)))"
  by (induction xs arbitrary: s) (auto split: prod.splits)

lemma captures_snoc:
  "captures pixels (xs @ [(now, k, d)]) s =
     (fst (captures pixels xs s) @ [fst (save_clip pixels now k d (snd (captures pixels xs s)))],
      snd (save_clip pixels now k d (snd (captures pixels xs s))))"
  by (simp add: captures_append split: prod.splits)

lemma take_Cons_take: "take n (x # take n xs) = take n (x # xs)"
  by (cases n) simp_all

lemma drop_Cons_split:
  "set (drop n (x # xs)) \<subseteq> set (drop n (x # take n xs)) \<union> set (drop n xs)"
proof (cases n)
  case 0
  then show ?thesis by auto
next
  case (Suc k)
  have "drop k xs = drop k (take (Suc k) xs @ drop (Suc k) xs)"
    by (simp only: append_take_drop_id)
  also have "\<dots> = drop k (take (Suc k) xs) @
      drop (k - length (take (Suc k) xs)) (drop (Suc k) xs)"
    by (rule drop_append)
  finally have "set (drop k xs) \<subseteq>
      set (drop k (take (Suc k) xs)) \<union> set (drop (Suc k) xs)"
    using set_drop_subset [of "k - length (take (Suc k) xs)" "drop (Suc k) xs"]
    by (simp only: set_append) blast
  then show ?thesis using Suc by simp
qed

text \<open>
  The invariant of a run of captures that all return \<^verbatim>\<open>True\<close>, at increasing time stamps:
  the index holds the newest \<^verbatim>\<open>max_clips\<close> records and no blob of an older record is left.
\<close>

lemma new_clip_id [simp]: "clip_id (new_clip pixels now d) = py_int now"
  by (cases d) simp_all

lemma new_clip_filename: "is_image (new_clip pixels now d) \<Longrightarrow>
    filename (new_clip pixels now d) = img_filename (py_int now)"
  by (cases d) simp_all

lemma new_clips_snoc [simp]:
  "new_clips pixels (caps @ [(now, k, d)]) = new_clips pixels caps @ [new_clip pixels now d]"
  by (simp add: new_clips_def)

lemma new_clips_ids: "map clip_id (new_clips pixels caps) = map (\<lambda>c. py_int (fst c)) caps"
  by (induction caps) (auto simp add: new_clips_def)

lemma new_clips_mem:
  assumes "e \<in> set (new_clips pixels caps)"
  shows "\<exists>c\<in>set caps. clip_id e = py_int (fst c) \<and>
           (is_image e \<longrightarrow> filename e = img_filename (py_int (fst c)))"
  using assms by (auto simp add: new_clips_def new_clip_filename intro!: bexI)

lemma captures_invariant:
  assumes l: "load_clips s = Inr clips" and st: "load_settings s = Inr st"
    and b: "int (length clips) \<le> get_max_clips st"
  shows "(\<forall>c\<in>set caps. fst (snd c) = ''text'' \<or> fst (snd c) = ''image'') \<Longrightarrow>
         sorted_wrt (<) (map (\<lambda>c. py_int (fst c)) caps) \<Longrightarrow>
         (\<forall>r\<in>set (fst (captures pixels caps s)). r = Inr True) \<Longrightarrow>
         (\<forall>e\<in>set clips. is_image e \<longrightarrow>
            (\<forall>c\<in>set caps. filename e \<noteq> img_filename (py_int (fst c)))) \<Longrightarrow>
         load_clips (snd (captures pixels caps s)) =
           Inr (take (nat (get_max_clips st)) (rev (new_clips pixels caps) @ clips)) \<and>
         load_settings (snd (captures pixels caps s)) = Inr st \<and>
         (\<forall>e\<in>set (drop (nat (get_max_clips st)) (rev (new_clips pixels caps) @ clips)).
            is_image e \<longrightarrow> read_bytes (snd (captures pixels caps s)) (filename e) = None)"
proof (induction caps rule: rev_induct)
  case Nil
  from b have "length clips \<le> nat (get_max_clips st)" by simp
  then show ?case using l st by (simp add: new_clips_def)
next
  case (snoc x caps)
  obtain now k d where x: "x = (now, k, d)" by (cases x)
  let ?N = "nat (get_max_clips st)"
  let ?s1 = "snd (captures pixels caps s)"
  let ?all = "rev (new_clips pixels caps) @ clips"
  let ?new = "new_clip pixels now d"
  let ?sa = "snd (save_clip pixels now k d ?s1)"
  have kinds: "\<forall>c\<in>set caps. fst (snd c) = ''text'' \<or> fst (snd c) = ''image''"
    and k: "k = ''text'' \<or> k = ''image''"
    using snoc.prems(1) x by simp_all
  have inc: "sorted_wrt (<) (map (\<lambda>c. py_int (fst c)) caps)"
    and later: "\<forall>c\<in>set caps. py_int (fst c) < py_int now"
    using snoc.prems(2) x by (auto simp add: sorted_wrt_append)
  have res: "\<forall>r\<in>set (fst (captures pixels caps s)). r = Inr True"
    and r: "fst (save_clip pixels now k d ?s1) = Inr True"
    using snoc.prems(3) x by (simp_all add: captures_snoc)
  have old: "\<forall>e\<in>set clips. is_image e \<longrightarrow>
            (\<forall>c\<in>set caps. filename e \<noteq> img_filename (py_int (fst c)))"
    and old_new: "\<forall>e\<in>set clips. is_image e \<longrightarrow> filename e \<noteq> img_filename (py_int now)"
    using snoc.prems(4) x by simp_all
  from snoc.IH [OF kinds inc res old]
  have l1: "load_clips ?s1 = Inr (take ?N ?all)"
    and st1: "load_settings ?s1 = Inr st"
    and gone: "\<forall>e\<in>set (drop ?N ?all). is_image e \<longrightarrow> read_bytes ?s1 (filename e) = None"
    by simp_all
  from r have r': "save_clip pixels now k d ?s1 = (Inr True, ?sa)"
    by (simp add: prod_eq_iff)
  note step = save_clip_True_step [OF l1 st1 k r']
  have fin: "snd (captures pixels (caps @ [x]) s) = ?sa"
    by (simp add: x captures_snoc)
  have all: "rev (new_clips pixels (caps @ [x])) @ clips = ?new # ?all"
    by (simp add: x)
  have names: "\<And>e. e \<in> set ?all \<Longrightarrow> is_image e \<Longrightarrow> filename e \<noteq> img_filename (py_int now)"
  proof -
    fix e assume e: "e \<in> set ?all" and i: "is_image e"
    show "filename e \<noteq> img_filename (py_int now)"
    proof (cases "e \<in> set clips")
      case True
      with old_new i show ?thesis by simp
    next
      case False
      with e have "e \<in> set (new_clips pixels caps)" by simp
      from new_clips_mem [OF this] i obtain c where c: "c \<in> set caps"
        and f: "filename e = img_filename (py_int (fst c))" by blast
      from later c have "py_int (fst c) \<noteq> py_int now" by fastforce
      with f img_filename_inj show ?thesis by metis
    qed
  qed
  have blobs: "\<forall>e\<in>set (drop ?N (?new # ?all)). is_image e \<longrightarrow> read_bytes ?sa (filename e) = None"
  proof (intro ballI impI)
    fix e assume e: "e \<in> set (drop ?N (?new # ?all))" and i: "is_image e"
    from e drop_Cons_split [of ?N ?new ?all]
    consider "e \<in> set (drop ?N (?new # take ?N ?all))" | "e \<in> set (drop ?N ?all)" by blast
    then show "read_bytes ?sa (filename e) = None"
    proof cases
      case 1
      then show ?thesis using i by (rule step(3))
    next
      case 2
      with gone i have g: "read_bytes ?s1 (filename e) = None" by simp
      from 2 have "e \<in> set ?all" by (rule in_set_dropD)
      from names [OF this i] g show ?thesis by (simp add: step(4))
    qed
  qed
  have store: "load_clips ?sa = Inr (take ?N (?new # ?all))"
    using step(1) by (simp only: take_Cons_take)
  show ?case
    unfolding fin all using store step(2) blobs by blast
qed

lemma capture_keeps_bound:
  assumes l: "load_clips s = Inr clips" and st: "load_settings s = Inr st"
    and b: "int (length clips) \<le> get_max_clips st"
  shows "\<exists>clips'. load_clips (snd (save_clip pixels now k d s)) = Inr clips' \<and>
           int (length clips') \<le> get_max_clips st"
proof -
  from b have m: "0 \<le> get_max_clips st" by simp
  have p: "\<And>cs s1. load_clips (snd (prune_and_save (get_max_clips st) cs s1)) =
             Inr (take (nat (get_max_clips st)) cs)"
    by (simp add: prune_and_save_nonneg [OF m])
  have len: "\<And>cs. int (length (take (nat (get_max_clips st)) cs)) \<le> get_max_clips st"
    using m by simp
  show ?thesis
    using l st b
    by (simp add: save_clip_def Let_def p len del: length_take
        split: clip_data.splits sum.splits)
qed

lemma retained_newer:
  assumes inc: "sorted_wrt (<) (map (\<lambda>c. py_int (fst c)) caps)"
    and r: "r \<in> set (take n (rev (new_clips pixels caps)))"
    and e: "e \<in> set (drop n (rev (new_clips pixels caps)))"
  shows "clip_id e < clip_id r"
proof -
  let ?nc = "rev (new_clips pixels caps)"
  from inc have "sorted_wrt (<) (map clip_id (new_clips pixels caps))"
    by (simp add: new_clips_ids)
  then have "sorted_wrt (\<lambda>x y. clip_id x < clip_id y) (new_clips pixels caps)"
    by (simp add: sorted_wrt_map)
  then have "sorted_wrt (\<lambda>x y. clip_id y < clip_id x) ?nc"
    by (simp add: sorted_wrt_rev)
  then have "sorted_wrt (\<lambda>x y. clip_id y < clip_id x) (take n ?nc @ drop n ?nc)"
    by simp
  with r e show ?thesis unfolding sorted_wrt_append by blast
qed

text \<open>
  Three captures within one second, with room for one record: all three return \<^verbatim>\<open>True\<close>, the
  first image record is dropped, and the file it names is on disk at the end, written again
  by the third capture under the same name.
\<close>

theorem same_second_blob_counterexample:
  "fst (captures (\<lambda>b. if length b = 3 then Some (2, 2) else None)
      [(5, ''image'', Bytes [1, 2, 3]), (5, ''text'', Str ''x''), (5, ''image'', Bytes [4, 5])]
      \<lparr>settings_path = Json \<lparr>max_clips = Some 1, window = None\<rparr>,
       clips_dir = Some \<lparr>clips_json = Json [], blobs = Map.empty\<rparr>\<rparr>) =
     [Inr True, Inr True, Inr True] \<and>
   new_clips (\<lambda>b. if length b = 3 then Some (2, 2) else None)
      [(5, ''image'', Bytes [1, 2, 3]), (5, ''text'', Str ''x''), (5, ''image'', Bytes [4, 5])] =
     [ImageClip 5 ''img_5.png'' 5 ''Screenshot (2x2)'', TextClip 5 ''x'' 5 ''x'',
      ImageClip 5 ''img_5.png'' 5 ''Image''] \<and>
   load_clips (snd (captures (\<lambda>b. if length b = 3 then Some (2, 2) else None)
      [(5, ''image'', Bytes [1, 2, 3]), (5, ''text'', Str ''x''), (5, ''image'', Bytes [4, 5])]
      \<lparr>settings_path = Json \<lparr>max_clips = Some 1, window = None\<rparr>,
       clips_dir = Some \<lparr>clips_json = Json [], blobs = Map.empty\<rparr>\<rparr>)) =
     Inr [ImageClip 5 ''img_5.png'' 5 ''Image''] \<and>
   path_exists (snd (captures (\<lambda>b. if length b = 3 then Some (2, 2) else None)
      [(5, ''image'', Bytes [1, 2, 3]), (5, ''text'', Str ''x''), (5, ''image'', Bytes [4, 5])]
      \<lparr>settings_path = Json \<lparr>max_clips = Some 1, window = None\<rparr>,
       clips_dir = Some \<lparr>clips_json = Json [], blobs = Map.empty\<rparr>\<rparr>))
     (filename (ImageClip 5 ''img_5.png'' 5 ''Screenshot (2x2)''))"
proof -
  have name: "img_filename 5 = ''img_5.png''"
    by (simp add: img_filename_def str_of_int_def decimal.simps digit_char_def)
  have two: "str_of_int 2 = ''2''"
    by (simp add: str_of_int_def decimal.simps digit_char_def)
  show ?thesis
    by (simp add: new_clips_def save_clip_def load_clips_def load_settings_def get_max_clips_def
        py_int_def write_bytes_def name two image_preview_def text_preview_def prune_and_save_def
        prune.simps save_clips_def path_exists_def read_bytes_def remove_blob_def unlink_def)
qed

text \<open>
  C3, as the code has it. On a disk whose index holds at most \<^verbatim>\<open>max_clips\<close> records, any one
  capture leaves an index of at most \<^verbatim>\<open>max_clips\<close> records, whatever its kind, data and
  outcome. After a run of at least \<^verbatim>\<open>max_clips\<close> captures of text or images that all return
  \<^verbatim>\<open>True\<close>, taken at strictly increasing time stamps that are later than every stored id and
  name no blob of a stored record, the index holds exactly \<^verbatim>\<open>max_clips\<close> records: the last
  ones captured, newest first. Every record that was dropped has a smaller id than every
  record kept, and no blob of a dropped image record is on disk.
\<close>

theorem bounded_retention:
  assumes l: "load_clips s = Inr clips" and st: "load_settings s = Inr st"
    and b: "int (length clips) \<le> get_max_clips st"
  shows
    "(\<exists>clips'. load_clips (snd (save_clip pixels now k d s)) = Inr clips' \<and>
        int (length clips') \<le> get_max_clips st) \<and>
     ((\<forall>c\<in>set caps. fst (snd c) = ''text'' \<or> fst (snd c) = ''image'') \<and>
      sorted_wrt (<) (map (\<lambda>c. py_int (fst c)) caps) \<and>
      (\<forall>r\<in>set (fst (captures pixels caps s)). r = Inr True) \<and>
      (\<forall>e\<in>set clips. \<forall>c\<in>set caps.
         clip_id e < py_int (fst c) \<and>
         (is_image e \<longrightarrow> filename e \<noteq> img_filename (py_int (fst c)))) \<and>
      nat (get_max_clips st) \<le> length caps \<longrightarrow>
        load_clips (snd (captures pixels caps s)) =
          Inr (take (nat (get_max_clips st)) (rev (new_clips pixels caps))) \<and>
        length (take (nat (get_max_clips st)) (rev (new_clips pixels caps))) =
          nat (get_max_clips st) \<and>
        (\<forall>r\<in>set (take (nat (get_max_clips st)) (rev (new_clips pixels caps))).
           \<forall>e\<in>set (drop (nat (get_max_clips st)) (rev (new_clips pixels caps)) @ clips).
             clip_id e < clip_id r) \<and>
        (\<forall>e\<in>set (drop (nat (get_max_clips st)) (rev (new_clips pixels caps)) @ clips).
           is_image e \<longrightarrow> \<not> path_exists (snd (captures pixels caps s)) (filename e)))"
proof (intro conjI impI)
  show "\<exists>clips'. load_clips (snd (save_clip pixels now k d s)) = Inr clips' \<and>
        int (length clips') \<le> get_max_clips st"
    by (rule capture_keeps_bound [OF l st b])
next
  let ?N = "nat (get_max_clips st)"
  let ?nc = "rev (new_clips pixels caps)"
  let ?sf = "snd (captures pixels caps s)"
  assume a: "(\<forall>c\<in>set caps. fst (snd c) = ''text'' \<or> fst (snd c) = ''image'') \<and>
      sorted_wrt (<) (map (\<lambda>c. py_int (fst c)) caps) \<and>
      (\<forall>r\<in>set (fst (captures pixels caps s)). r = Inr True) \<and>
      (\<forall>e\<in>set clips. \<forall>c\<in>set caps.
         clip_id e < py_int (fst c) \<and>
         (is_image e \<longrightarrow> filename e \<noteq> img_filename (py_int (fst c)))) \<and>
      nat (get_max_clips st) \<le> length caps"
  then have kinds: "\<forall>c\<in>set caps. fst (snd c) = ''text'' \<or> fst (snd c) = ''image''"
    and inc: "sorted_wrt (<) (map (\<lambda>c. py_int (fst c)) caps)"
    and res: "\<forall>r\<in>set (fst (captures pixels caps s)). r = Inr True"
    and old_id: "\<forall>e\<in>set clips. \<forall>c\<in>set caps. clip_id e < py_int (fst c)"
    and old_name: "\<forall>e\<in>set clips. is_image e \<longrightarrow>
            (\<forall>c\<in>set caps. filename e \<noteq> img_filename (py_int (fst c)))"
    and n: "?N \<le> length caps"
    by blast+
  from n have len: "?N \<le> length ?nc" by (simp add: new_clips_def)
  then have tk: "take ?N (?nc @ clips) = take ?N ?nc"
    and dr: "drop ?N (?nc @ clips) = drop ?N ?nc @ clips" by simp_all
  from captures_invariant [OF l st b kinds inc res old_name]
  have store: "load_clips ?sf = Inr (take ?N ?nc)"
    and gone: "\<forall>e\<in>set (drop ?N ?nc @ clips). is_image e \<longrightarrow> read_bytes ?sf (filename e) = None"
    unfolding tk dr by blast+
  show "load_clips ?sf = Inr (take ?N ?nc)" by (rule store)
  show "length (take ?N ?nc) = ?N" using len by simp
  show "\<forall>r\<in>set (take ?N ?nc). \<forall>e\<in>set (drop ?N ?nc @ clips). clip_id e < clip_id r"
  proof (intro ballI)
    fix r e assume r: "r \<in> set (take ?N ?nc)" and e: "e \<in> set (drop ?N ?nc @ clips)"
    show "clip_id e < clip_id r"
    proof (cases "e \<in> set clips")
      case True
      from r have "r \<in> set (new_clips pixels caps)" by (auto dest: in_set_takeD)
      from new_clips_mem [OF this] obtain c where "c \<in> set caps" "clip_id r = py_int (fst c)"
        by blast
      with old_id True show ?thesis by simp
    next
      case False
      with e have "e \<in> set (drop ?N ?nc)" by simp
      with inc r show ?thesis by (rule retained_newer)
    qed
  qed
  show "\<forall>e\<in>set (drop ?N ?nc @ clips). is_image e \<longrightarrow> \<not> path_exists ?sf (filename e)"
    using gone by (simp add: path_exists_def)
qed

theorem bounded_retention_witness:
  "load_clips (snd (captures (\<lambda>b. None)
      [(100, ''image'', Bytes [1, 2, 3]), (200, ''text'', Str ''a''),
       (300, ''image'', Bytes [4, 5]), (400, ''text'', Str ''b'')]
      \<lparr>settings_path = Json \<lparr>max_clips = Some 2, window = None\<rparr>,
       clips_dir = Some \<lparr>clips_json = Json [ImageClip 50 ''img_50.png'' 50 ''Image''],
                         blobs = [''img_50.png'' \<mapsto> [7]]\<rparr>\<rparr>)) =
     Inr [TextClip 400 ''b'' 400 ''b'', ImageClip 300 ''img_300.png'' 300 ''Image''] \<and>
   \<not> path_exists (snd (captures (\<lambda>b. None)
      [(100, ''image'', Bytes [1, 2, 3]), (200, ''text'', Str ''a''),
       (300, ''image'', Bytes [4, 5]), (400, ''text'', Str ''b'')]
      \<lparr>settings_path = Json \<lparr>max_clips = Some 2, window = None\<rparr>,
       clips_dir = Some \<lparr>clips_json = Json [ImageClip 50 ''img_50.png'' 50 ''Image''],
                         blobs = [''img_50.png'' \<mapsto> [7]]\<rparr>\<rparr>)) ''img_100.png'' \<and>
   \<not> path_exists (snd (captures (\<lambda>b. None)
      [(100, ''image'', Bytes [1, 2, 3]), (200, ''text'', Str ''a''),
       (300, ''image'', Bytes [4, 5]), (400, ''text'', Str ''b'')]
      \<lparr>settings_path = Json \<lparr>max_clips = Some 2, window = None\<rparr>,
       clips_dir = Some \<lparr>clips_json = Json [ImageClip 50 ''img_50.png'' 50 ''Image''],
                         blobs = [''img_50.png'' \<mapsto> [7]]\<rparr>\<rparr>)) ''img_50.png'' \<and>
   (\<exists>clips'. load_clips (snd (save_clip (\<lambda>b. None) 100 ''image'' (Bytes [1, 2, 3])
      \<lparr>settings_path = Json \<lparr>max_clips = Some 2, window = None\<rparr>,
       clips_dir = Some \<lparr>clips_json = Json [ImageClip 50 ''img_50.png'' 50 ''Image''],
                         blobs = [''img_50.png'' \<mapsto> [7]]\<rparr>\<rparr>)) = Inr clips' \<and>
      int (length clips') \<le> 2)"
proof -
  let ?s = "\<lparr>settings_path = Json \<lparr>max_clips = Some 2, window = None\<rparr>,
       clips_dir = Some \<lparr>clips_json = Json [ImageClip 50 ''img_50.png'' 50 ''Image''],
                         blobs = [''img_50.png'' \<mapsto> [7::byte]]\<rparr>\<rparr>"
  let ?caps = "[(100::real, ''image'', Bytes [1, 2, 3]), (200, ''text'', Str ''a''),
       (300, ''image'', Bytes [4, 5]), (400, ''text'', Str ''b'')]"
  have l: "load_clips ?s = Inr [ImageClip 50 ''img_50.png'' 50 ''Image'']"
    by (simp add: load_clips_def)
  have st: "load_settings ?s = Inr \<lparr>max_clips = Some 2, window = None\<rparr>"
    by (simp add: load_settings_def)
  have b: "int (length [ImageClip 50 ''img_50.png'' 50 ''Image'']) \<le>
             get_max_clips \<lparr>max_clips = Some 2, window = None\<rparr>"
    by (simp add: get_max_clips_def)
  have names: "img_filename 100 = ''img_100.png''" "img_filename 200 = ''img_200.png''"
    "img_filename 300 = ''img_300.png''" "img_filename 400 = ''img_400.png''"
    by (simp_all add: img_filename_def str_of_int_def decimal.simps digit_char_def)
  have res: "fst (captures (\<lambda>b. None) ?caps ?s) = [Inr True, Inr True, Inr True, Inr True]"
    by (simp add: save_clip_def load_clips_def load_settings_def get_max_clips_def py_int_def
        write_bytes_def names image_preview_def text_preview_def prune_and_save_def prune.simps
        save_clips_def path_exists_def read_bytes_def remove_blob_def unlink_def)
  from bounded_retention [OF l st b, where pixels = "\<lambda>b. None" and caps = ?caps
      and now = 100 and k = "''image''" and d = "Bytes [1, 2, 3]"] res
  show ?thesis
    by (simp add: get_max_clips_def py_int_def names new_clips_def image_preview_def
        text_preview_def)
qed

end
